theory Spec2Isabelle
  imports Complex_Main "HOL-Library.AList" "HOL-Library.Sublist"
begin

section \<open>Python values, dictionaries and exceptions\<close>

text \<open>
  Metadata dictionaries hold arbitrary Python values. The sanitizer only looks at the
  top-level type of a value, so the universe is: \<open>None\<close>, \<open>str\<close>, \<open>int\<close>, \<open>float\<close>
  (its payload is only passed through, so a real number stands for it), \<open>bool\<close>,
  \<open>list\<close>, \<open>dict\<close>, and any other object (tagged by a name). A dictionary is an
  association list in insertion order; \<open>d[k] = v\<close> is \<open>AList.update k v d\<close> and
  \<open>d.get(k)\<close> is \<open>map_of d k\<close>.
\<close>

datatype pyval =
    PNone
  | PStr string
  | PInt int
  | PFloat real
  | PBool bool
  | PList "pyval list"
  | PDict "(string \<times> pyval) list"
  | PObj string

type_synonym pydict = "(string \<times> pyval) list"

text \<open>
  Exceptions that are instances of \<open>Exception\<close> and are not provider API errors. Each
  carries the text that \<open>str(e)\<close> yields, which is taken to be available, as it is
  for the built-in exceptions; \<open>OtherError\<close> also carries its class name.
\<close>

datatype pyexn =
    KeyError string
  | AttributeError string
  | TypeError string
  | IndexError string
  | OtherError string string

fun exn_str :: "pyexn \<Rightarrow> string" where
  "exn_str (KeyError s) = s"
| "exn_str (AttributeError s) = s"
| "exn_str (TypeError s) = s"
| "exn_str (IndexError s) = s"
| "exn_str (OtherError c s) = s"

text \<open>\<open>type(e).__name__\<close>.\<close>

fun exn_name :: "pyexn \<Rightarrow> string" where
  "exn_name (KeyError s) = ''KeyError''"
| "exn_name (AttributeError s) = ''AttributeError''"
| "exn_name (TypeError s) = ''TypeError''"
| "exn_name (IndexError s) = ''IndexError''"
| "exn_name (OtherError c s) = c"

text \<open>\<open>type(v).__name__\<close>; an object of another type is tagged by the name of its type.\<close>

fun type_name :: "pyval \<Rightarrow> string" where
  "type_name PNone = ''NoneType''"
| "type_name (PStr s) = ''str''"
| "type_name (PInt i) = ''int''"
| "type_name (PFloat x) = ''float''"
| "type_name (PBool b) = ''bool''"
| "type_name (PList xs) = ''list''"
| "type_name (PDict d) = ''dict''"
| "type_name (PObj t) = t"

fun is_str :: "pyval \<Rightarrow> bool" where
  "is_str (PStr s) = True"
| "is_str v = False"

text \<open>Python truthiness, as used by \<open>if chunk_text:\<close>.\<close>

fun py_truthy :: "pyval \<Rightarrow> bool" where
  "py_truthy PNone = False"
| "py_truthy (PStr s) = (s \<noteq> [])"
| "py_truthy (PInt i) = (i \<noteq> 0)"
| "py_truthy (PFloat x) = (x \<noteq> 0)"
| "py_truthy (PBool b) = b"
| "py_truthy (PList xs) = (xs \<noteq> [])"
| "py_truthy (PDict d) = (d \<noteq> [])"
| "py_truthy (PObj t) = True"

section \<open>Metadata sanitization (\<open>VectorService._sanitize_metadata\<close>)\<close>

text \<open>
  \<open>json.dumps\<close> and the builtin \<open>str\<close> belong to the Python runtime; both can raise
  (\<open>json.dumps\<close> on a value that is not serializable, \<open>str\<close> on an object whose
  \<open>__str__\<close> fails). They are parameters \<open>jd\<close> and \<open>ps\<close> of the model, returning
  \<open>Inl\<close> of the exception raised.
\<close>

definition exclude_fields :: "string set" where
  "exclude_fields = {''coordinates'', ''parent_id'', ''element_id'', ''orig_elements''}"

definition json_fields :: "string set" where
  "json_fields = {''metadata_json''}"

text \<open>
  One iteration of the loop body for the item \<open>(key, value)\<close>: \<open>Inr None\<close> when the
  field is skipped, \<open>Inr (Some v)\<close> when \<open>sanitized[key] = v\<close> is executed, \<open>Inl e\<close>
  when \<open>json.dumps\<close> raises (the call is not guarded by a \<open>try\<close>). A failing \<open>str\<close>
  is caught and the field is skipped.
\<close>

fun sanitize_field ::
  "(pyval \<Rightarrow> pyexn + string) \<Rightarrow> (pyval \<Rightarrow> pyexn + string) \<Rightarrow> string \<Rightarrow> pyval
    \<Rightarrow> pyexn + pyval option" where
  "sanitize_field jd ps key val =
     (if key \<in> exclude_fields then Inr None
      else case val of
        PNone \<Rightarrow> Inr None
      | PStr s \<Rightarrow> Inr (Some val)
      | PInt i \<Rightarrow> Inr (Some val)
      | PFloat x \<Rightarrow> Inr (Some val)
      | PBool b \<Rightarrow> Inr (Some val)
      | PList items \<Rightarrow>
          (if list_all is_str items then Inr (Some val)
           else if key \<in> json_fields then
             (case jd val of Inl e \<Rightarrow> Inl e | Inr s \<Rightarrow> Inr (Some (PStr s)))
           else Inr None)
      | PDict d \<Rightarrow>
          (if key \<in> json_fields then
             (case jd val of Inl e \<Rightarrow> Inl e | Inr s \<Rightarrow> Inr (Some (PStr s)))
           else Inr None)
      | PObj t \<Rightarrow>
          (case ps val of Inl e \<Rightarrow> Inr None | Inr s \<Rightarrow> Inr (Some (PStr s))))"

fun sanitize_loop ::
  "(pyval \<Rightarrow> pyexn + string) \<Rightarrow> (pyval \<Rightarrow> pyexn + string) \<Rightarrow> pydict \<Rightarrow> pydict
    \<Rightarrow> pyexn + pydict" where
  "sanitize_loop jd ps [] sanitized = Inr sanitized"
| "sanitize_loop jd ps ((key, val) # rest) sanitized =
     (case sanitize_field jd ps key val of
        Inl e \<Rightarrow> Inl e
      | Inr None \<Rightarrow> sanitize_loop jd ps rest sanitized
      | Inr (Some v) \<Rightarrow> sanitize_loop jd ps rest (AList.update key v sanitized))"

definition sanitize_metadata ::
  "(pyval \<Rightarrow> pyexn + string) \<Rightarrow> (pyval \<Rightarrow> pyexn + string) \<Rightarrow> pydict \<Rightarrow> pyexn + pydict" where
  "sanitize_metadata jd ps metadata = sanitize_loop jd ps metadata []"

text \<open>The value types the vector index accepts: string, number, boolean, list of strings.\<close>

fun index_value :: "pyval \<Rightarrow> bool" where
  "index_value (PStr s) = True"
| "index_value (PInt i) = True"
| "index_value (PFloat x) = True"
| "index_value (PBool b) = True"
| "index_value (PList items) = list_all is_str items"
| "index_value v = False"

text \<open>Lists and dicts: the values for which the complex-allowlist is consulted.\<close>

fun is_container :: "pyval \<Rightarrow> bool" where
  "is_container (PList items) = True"
| "is_container (PDict d) = True"
| "is_container v = False"

text \<open>
  The sentence of the specification, read literally, as the function it prescribes for a
  field whose raw value is not an index value: a JSON string if the key is on the
  allowlist, absent otherwise.
\<close>

definition spec_complex_field ::
  "(pyval \<Rightarrow> pyexn + string) \<Rightarrow> string \<Rightarrow> pyval \<Rightarrow> pyval option" where
  "spec_complex_field jd key val =
     (if key \<in> json_fields then (case jd val of Inl e \<Rightarrow> None | Inr s \<Rightarrow> Some (PStr s))
      else None)"

section \<open>Configuration and the external collaborators\<close>

text \<open>
  The fields of \<open>Settings\<close> that the modelled functions read, with the defaults of
  \<open>config.py\<close>. \<open>ALLOWED_EXTENSIONS\<close> is held as the set the upload module derives
  from the comma-separated setting at import time.
\<close>

record settings =
  LLM_MODEL :: string
  COHERE_RERANK_MODEL :: string
  RETRIEVAL_LIMIT :: nat
  RERANK_LIMIT :: nat
  MAX_UPLOAD_MB :: nat
  ALLOWED_EXTENSIONS :: "string set"

definition default_settings :: settings where
  "default_settings =
     \<lparr> LLM_MODEL = ''claude-haiku-4-5'',
       COHERE_RERANK_MODEL = ''rerank-english-v3.0'',
       RETRIEVAL_LIMIT = 50,
       RERANK_LIMIT = 10,
       MAX_UPLOAD_MB = 50,
       ALLOWED_EXTENSIONS = {''.pdf'', ''.txt'', ''.html''} \<rparr>"

record chunk =
  chunk_id :: string
  chunk_text :: string
  chunk_metadata :: pydict

record vrecord =
  vec_id :: string
  vec_values :: "real list"
  vec_metadata :: pydict

text \<open>
  The calls the adapter can issue against the embedding model and the vector index.
  The index client also offers a delete; the event is there so that its absence from a
  trace can be stated.
\<close>

datatype index_call =
    Encode "string list"
  | Upsert "vrecord list"
  | Delete "string list"

record vstore =
  vs_index :: "vrecord list"
  vs_calls :: "index_call list"

text \<open>A parsed and split document element (a LangChain \<open>Document\<close>).\<close>

record lc_document =
  page_content :: string
  doc_metadata :: "(pyval \<times> pyval) list"

datatype content_block = TextBlock string | OtherBlock

text \<open>
  What the provider call of the generator does: it returns a response with a list of
  content blocks, raises an \<open>anthropic.APIError\<close> (with its \<open>status_code\<close> attribute,
  if any, and the result of stringifying it, \<open>None\<close> when stringification itself
  raises), or raises another exception.
\<close>

datatype llm_outcome =
    Response "content_block list"
  | RaisedAPIError "int option" "string option"
  | Raised pyexn

record llm_request =
  req_model :: string
  req_max_tokens :: nat
  req_temperature :: real
  req_system :: string
  req_prompt :: string

text \<open>
  Everything outside the repository that the code calls. A call against the embedding
  model or the index during ingestion may answer differently each time, so these take
  the trace of calls issued so far. \<open>format_error\<close> is what \<open>str.format\<close> raises, if
  anything, on a message with a replacement field when the only argument is the keyword
  \<open>exc_info\<close>.
\<close>

record env =
  json_dumps :: "pyval \<Rightarrow> pyexn + string"
  py_str :: "pyval \<Rightarrow> pyexn + string"
  uuid4 :: "nat \<Rightarrow> string"
  load_and_split :: "string \<Rightarrow> pyexn + lc_document list"
  encode :: "index_call list \<Rightarrow> string list \<Rightarrow> pyexn + real list list"
  upsert_error :: "index_call list \<Rightarrow> vrecord list \<Rightarrow> pyexn option"
  encode_query :: "string \<Rightarrow> pyexn + real list"
  query_error :: "real list \<Rightarrow> pyexn option"
  score :: "real list \<Rightarrow> real list \<Rightarrow> real"
  rerank :: "string \<Rightarrow> pyval list \<Rightarrow> nat \<Rightarrow> string \<Rightarrow> pyexn + nat list"
  llm_create :: "llm_request \<Rightarrow> llm_outcome"
  remove_error :: "string \<Rightarrow> pyexn option"
  format_error :: "string \<Rightarrow> pyexn option"

section \<open>Logging with a keyword argument\<close>

definition sq :: string where
  "sq = [CHR 0x27]"

definition dq :: string where
  "dq = [CHR 0x22]"

definition nl :: string where
  "nl = [CHR 0x0A]"

text \<open>
  The logger formats a message with \<open>str.format\<close> whenever the call passes an argument,
  and the \<open>except\<close> clauses pass \<open>exc_info=True\<close> with a message that already holds
  the text of the exception. \<open>str.format\<close> reads the message from the left: a doubled
  brace is a literal brace, a closing brace that is not doubled is an error, an opening
  brace starts a replacement field. \<open>lone_close_first\<close> says that a closing brace that
  is not doubled comes before any opening brace.
\<close>

fun lone_close_first :: "string \<Rightarrow> bool" where
  "lone_close_first [] = False"
| "lone_close_first [c] = (c = CHR 0x7D)"
| "lone_close_first (c # d # rest) =
     (if c = CHR 0x7D then (if d = CHR 0x7D then lone_close_first rest else True)
      else if c = CHR 0x7B then False
      else lone_close_first (d # rest))"

definition single_close_error :: pyexn where
  "single_close_error =
     OtherError ''ValueError''
       (''Single '' @ sq @ [CHR 0x7D] @ sq @ '' encountered in format string'')"

text \<open>
  What \<open>logger.error(message, exc_info=True)\<close> raises, if anything: nothing on a
  message without a brace that counts, the error of the lone closing brace, or what
  formatting the first replacement field raises.
\<close>

definition log_error_kw :: "env \<Rightarrow> string \<Rightarrow> pyexn option" where
  "log_error_kw env message =
     (if lone_close_first message then Some single_close_error
      else if CHR 0x7B \<in> set message then format_error env message
      else None)"

section \<open>Batched upsert (\<open>VectorService.upsert_chunks\<close>)\<close>

text \<open>
  \<open>range(i, stop, step)\<close> for a positive step (Python raises on a zero step; the
  call site passes 100).
\<close>

function py_range :: "nat \<Rightarrow> nat \<Rightarrow> nat \<Rightarrow> nat list" where
  "py_range i stop step =
     (if 0 < step \<and> i < stop then i # py_range (i + step) stop step else [])"
  by pat_completeness auto
termination
  by (relation "measure (\<lambda>(i, stop, step). stop - i)") auto

declare py_range.simps [simp del]

definition batch_size :: nat where
  "batch_size = 100"

text \<open>
  Modelled from the spec: the vector index's upsert, which is not code of this
  repository. A record replaces the stored record with the same id, or is added.
\<close>

fun index_put :: "vrecord \<Rightarrow> vrecord list \<Rightarrow> vrecord list" where
  "index_put r [] = [r]"
| "index_put r (x # xs) = (if vec_id x = vec_id r then r # xs else x # index_put r xs)"

definition index_upsert :: "vrecord list \<Rightarrow> vrecord list \<Rightarrow> vrecord list" where
  "index_upsert vectors idx = fold index_put vectors idx"

text \<open>The inner loop over \<open>zip(batch, embeddings)\<close>.\<close>

fun build_vectors :: "env \<Rightarrow> (chunk \<times> real list) list \<Rightarrow> pyexn + vrecord list" where
  "build_vectors env [] = Inr []"
| "build_vectors env ((c, emb) # rest) =
     (case sanitize_metadata (json_dumps env) (py_str env) (chunk_metadata c) of
        Inl e \<Rightarrow> Inl e
      | Inr sanitized \<Rightarrow>
          (case build_vectors env rest of
             Inl e \<Rightarrow> Inl e
           | Inr vs \<Rightarrow>
               Inr (\<lparr> vec_id = chunk_id c, vec_values = emb, vec_metadata = sanitized \<rparr> # vs)))"

text \<open>
  The body of the \<open>for\<close> loop for one batch. The \<open>except\<close> clause logs and raises the
  same exception again, so the result is the exception and the store as it is then.
\<close>

definition upsert_batch :: "env \<Rightarrow> chunk list \<Rightarrow> vstore \<Rightarrow> pyexn option \<times> vstore" where
  "upsert_batch env batch s =
     (let texts = map chunk_text batch;
          s1 = s\<lparr> vs_calls := vs_calls s @ [Encode texts] \<rparr>
      in case encode env (vs_calls s) texts of
           Inl e \<Rightarrow> (Some e, s1)
         | Inr embeddings \<Rightarrow>
             (case build_vectors env (zip batch embeddings) of
                Inl e \<Rightarrow> (Some e, s1)
              | Inr vectors_to_upsert \<Rightarrow>
                  (let s2 = s1\<lparr> vs_calls := vs_calls s1 @ [Upsert vectors_to_upsert] \<rparr>
                   in case upsert_error env (vs_calls s1) vectors_to_upsert of
                        Some e \<Rightarrow> (Some e, s2)
                      | None \<Rightarrow>
                          (None, s2\<lparr> vs_index := index_upsert vectors_to_upsert (vs_index s2) \<rparr>))))"

fun upsert_loop :: "env \<Rightarrow> chunk list \<Rightarrow> nat list \<Rightarrow> vstore \<Rightarrow> pyexn option \<times> vstore" where
  "upsert_loop env chunks [] s = (None, s)"
| "upsert_loop env chunks (i # rest) s =
     (case upsert_batch env (take batch_size (drop i chunks)) s of
        (Some e, s') \<Rightarrow> (Some e, s')
      | (None, s') \<Rightarrow> upsert_loop env chunks rest s')"

definition upsert_chunks :: "env \<Rightarrow> chunk list \<Rightarrow> vstore \<Rightarrow> pyexn option \<times> vstore" where
  "upsert_chunks env chunks s =
     (if chunks = [] then (None, s)
      else upsert_loop env chunks (py_range 0 (length chunks) batch_size) s)"

text \<open>The slices \<open>chunks[i : i + batch_size]\<close> the loop visits, in order.\<close>

definition slice :: "chunk list \<Rightarrow> nat \<Rightarrow> chunk list" where
  "slice chunks i = take batch_size (drop i chunks)"

definition batches_of :: "chunk list \<Rightarrow> chunk list list" where
  "batches_of chunks = map (slice chunks) (py_range 0 (length chunks) batch_size)"

text \<open>The two calls of a batch that goes through: one embedding call, one upsert.\<close>

definition batch_calls :: "chunk list \<Rightarrow> vrecord list \<Rightarrow> index_call list" where
  "batch_calls b vs = [Encode (map chunk_text b), Upsert vs]"

fun is_Delete :: "index_call \<Rightarrow> bool" where
  "is_Delete (Delete d) = True"
| "is_Delete c = False"

section \<open>Parsing and chunking (\<open>DocumentService.process_file\<close>)\<close>

function string_of_nat :: "nat \<Rightarrow> string" where
  "string_of_nat n =
     (if n < 10 then [char_of (48 + n)]
      else string_of_nat (n div 10) @ [char_of (48 + n mod 10)])"
  by pat_completeness auto
termination
  by (relation "measure id") auto

declare string_of_nat.simps [simp del]

text \<open>\<open>str(v)\<close>: the identity on a string, the runtime's conversion otherwise.\<close>

fun str_of :: "env \<Rightarrow> pyval \<Rightarrow> pyexn + string" where
  "str_of env (PStr s) = Inr s"
| "str_of env v = py_str env v"

text \<open>\<open>isinstance(k, (str, int, float))\<close>; a \<open>bool\<close> is an \<open>int\<close>.\<close>

fun is_key_type :: "pyval \<Rightarrow> bool" where
  "is_key_type (PStr s) = True"
| "is_key_type (PInt i) = True"
| "is_key_type (PFloat x) = True"
| "is_key_type (PBool b) = True"
| "is_key_type v = False"

text \<open>
  The dict comprehension \<open>{str(k): v for k, v in chunk.metadata.items() if ...}\<close>;
  an exception inside it is caught by the caller, which then keeps the empty dict.
\<close>

fun filter_chunk_metadata :: "env \<Rightarrow> (pyval \<times> pyval) list \<Rightarrow> pydict \<Rightarrow> pyexn + pydict" where
  "filter_chunk_metadata env [] acc = Inr acc"
| "filter_chunk_metadata env ((k, v) # rest) acc =
     (if v \<noteq> PNone \<and> is_key_type k then
        (case str_of env k of
           Inl e \<Rightarrow> Inl e
         | Inr s \<Rightarrow> filter_chunk_metadata env rest (AList.update s v acc))
      else filter_chunk_metadata env rest acc)"

text \<open>\<open>{**a, **b}\<close>: the entries of \<open>b\<close> are written over those of \<open>a\<close>.\<close>

definition merge_dict :: "pydict \<Rightarrow> pydict \<Rightarrow> pydict" where
  "merge_dict a b = fold (\<lambda>(k, v). AList.update k v) b a"

text \<open>
  The loop over \<open>enumerate(chunks)\<close>, from index \<open>i\<close>. Formatting the file id inside
  the f-string is not guarded, so an exception there leaves \<open>process_file\<close>.
\<close>

fun process_chunks :: "env \<Rightarrow> pydict \<Rightarrow> nat \<Rightarrow> lc_document list \<Rightarrow> pyexn + chunk list" where
  "process_chunks env metadata i [] = Inr []"
| "process_chunks env metadata i (d # ds) =
     (case str_of env (case map_of metadata ''file_id'' of
                         None \<Rightarrow> PStr (uuid4 env i)
                       | Some v \<Rightarrow> v) of
        Inl e \<Rightarrow> Inl e
      | Inr fid \<Rightarrow>
          (let cid = fid @ ''#chunk'' @ string_of_nat i;
               chunk_md =
                 (if doc_metadata d \<noteq> [] then
                    (case filter_chunk_metadata env (doc_metadata d) [] of
                       Inl e \<Rightarrow> []
                     | Inr m \<Rightarrow> m)
                  else []);
               merged_metadata =
                 AList.update ''text'' (PStr (page_content d)) (merge_dict chunk_md metadata)
           in case process_chunks env metadata (Suc i) ds of
                Inl e \<Rightarrow> Inl e
              | Inr processed \<Rightarrow>
                  Inr (\<lparr> chunk_id = cid, chunk_text = page_content d,
                         chunk_metadata = merged_metadata \<rparr> # processed)))"

definition process_file :: "env \<Rightarrow> string \<Rightarrow> pydict \<Rightarrow> pyexn + chunk list" where
  "process_file env file_path metadata =
     (case load_and_split env file_path of
        Inl e \<Rightarrow> Inl e
      | Inr docs \<Rightarrow> process_chunks env metadata 0 docs)"

section \<open>Retrieval and reranking (\<open>SearchService.get_context\<close>)\<close>

text \<open>A metadata filter \<open>{k1: {"$eq": v1}, ...}\<close>: all the listed fields must equal.\<close>

type_synonym mfilter = "(string \<times> pyval) list"

definition filter_match :: "mfilter \<Rightarrow> vrecord \<Rightarrow> bool" where
  "filter_match flt r = list_all (\<lambda>(k, v). map_of (vec_metadata r) k = Some v) flt"

text \<open>
  Modelled from the spec: the vector index's query, which is not code of this
  repository. It returns up to \<open>top_k\<close> nearest records among those the filter accepts,
  nearest first; the similarity is the parameter \<open>score\<close>, and the call can fail.
\<close>

definition index_query ::
  "env \<Rightarrow> vrecord list \<Rightarrow> real list \<Rightarrow> nat \<Rightarrow> mfilter \<Rightarrow> pyexn + vrecord list" where
  "index_query env idx v top_k flt =
     (case query_error env v of
        Some e \<Rightarrow> Inl e
      | None \<Rightarrow>
          Inr (take top_k
                 (rev (sort_key (\<lambda>r. score env v (vec_values r)) (filter (filter_match flt) idx)))))"

definition match_text :: "vrecord \<Rightarrow> pyval" where
  "match_text m = (case map_of (vec_metadata m) ''text'' of None \<Rightarrow> PStr [] | Some v \<Rightarrow> v)"

fun extract_texts :: "vrecord list \<Rightarrow> pyval list" where
  "extract_texts [] = []"
| "extract_texts (m # ms) =
     (if py_truthy (match_text m) then match_text m # extract_texts ms else extract_texts ms)"

text \<open>\<open>[chunks[result.index] for result in results]\<close>; an index out of range raises.\<close>

fun pick_chunks :: "pyval list \<Rightarrow> nat list \<Rightarrow> pyexn + pyval list" where
  "pick_chunks chunks [] = Inr []"
| "pick_chunks chunks (i # rest) =
     (if i < length chunks then
        (case pick_chunks chunks rest of
           Inl e \<Rightarrow> Inl e
         | Inr picked \<Rightarrow> Inr (chunks ! i # picked))
      else Inl (IndexError ''list index out of range''))"

text \<open>
  \<open>sep.join(items)\<close>, which raises on the first item that is not a string, naming
  its position and type.
\<close>

fun py_join_from :: "nat \<Rightarrow> string \<Rightarrow> pyval list \<Rightarrow> pyexn + string" where
  "py_join_from i sep [] = Inr []"
| "py_join_from i sep [PStr s] = Inr s"
| "py_join_from i sep (PStr s # rest) =
     (case py_join_from (Suc i) sep rest of Inl e \<Rightarrow> Inl e | Inr t \<Rightarrow> Inr (s @ sep @ t))"
| "py_join_from i sep (v # rest) =
     Inl (TypeError (''sequence item '' @ string_of_nat i @ '': expected str instance, ''
                       @ type_name v @ '' found''))"

definition py_join :: "string \<Rightarrow> pyval list \<Rightarrow> pyexn + string" where
  "py_join sep items = py_join_from 0 sep items"

definition context_separator :: string where
  "context_separator = nl @ nl @ ''---'' @ nl @ nl"

text \<open>The \<open>try\<close> block of \<open>get_context\<close>.\<close>

definition get_context_try ::
  "env \<Rightarrow> settings \<Rightarrow> vrecord list \<Rightarrow> string \<Rightarrow> string \<Rightarrow> pyexn + string" where
  "get_context_try env cfg idx query user_id =
     (case encode_query env query of
        Inl e \<Rightarrow> Inl e
      | Inr query_emb \<Rightarrow>
          (case index_query env idx query_emb (RETRIEVAL_LIMIT cfg)
                  [(''user_id'', PStr user_id)] of
             Inl e \<Rightarrow> Inl e
           | Inr matches \<Rightarrow>
               if matches = [] then Inr []
               else
                 (let chunks = extract_texts matches
                  in if chunks = [] then Inr []
                     else
                       (case rerank env query chunks (RERANK_LIMIT cfg)
                               (COHERE_RERANK_MODEL cfg) of
                          Inl e \<Rightarrow> Inl e
                        | Inr results \<Rightarrow>
                            (case pick_chunks chunks results of
                               Inl e \<Rightarrow> Inl e
                             | Inr final_context_chunks \<Rightarrow>
                                 py_join context_separator final_context_chunks)))))"

text \<open>
  The \<open>except\<close> clause logs with \<open>exc_info=True\<close> and raises the exception again; if
  the logging call raises, its exception leaves instead.
\<close>

definition get_context ::
  "env \<Rightarrow> settings \<Rightarrow> vrecord list \<Rightarrow> string \<Rightarrow> string \<Rightarrow> pyexn + string" where
  "get_context env cfg idx query user_id =
     (case get_context_try env cfg idx query user_id of
        Inl e \<Rightarrow>
          (case log_error_kw env (''Error in search/retrieval pipeline: '' @ exn_str e) of
             Some x \<Rightarrow> Inl x
           | None \<Rightarrow> Inl e)
      | Inr context \<Rightarrow> Inr context)"

text \<open>A chunk whose metadata is a dictionary that maps \<open>user_id\<close> to the string \<open>u\<close>.\<close>

definition tagged :: "string \<Rightarrow> chunk \<Rightarrow> bool" where
  "tagged u c = (distinct (map fst (chunk_metadata c))
                 \<and> map_of (chunk_metadata c) ''user_id'' = Some (PStr u))"

definition owned :: "string \<Rightarrow> vrecord \<Rightarrow> bool" where
  "owned u r = (map_of (vec_metadata r) ''user_id'' = Some (PStr u))"

text \<open>The stored records of one tenant, and the texts they hold.\<close>

definition tenant_records :: "vrecord list \<Rightarrow> string \<Rightarrow> vrecord list" where
  "tenant_records idx user_id = filter (filter_match [(''user_id'', PStr user_id)]) idx"

text \<open>The index with every record of one tenant taken out.\<close>

definition without_tenant :: "string \<Rightarrow> vrecord list \<Rightarrow> vrecord list" where
  "without_tenant user_id idx = filter (\<lambda>r. \<not> owned user_id r) idx"

fun str_payloads :: "pyval list \<Rightarrow> string list" where
  "str_payloads [] = []"
| "str_payloads (PStr s # rest) = s # str_payloads rest"
| "str_payloads (v # rest) = str_payloads rest"

definition tenant_texts :: "vrecord list \<Rightarrow> string \<Rightarrow> string list" where
  "tenant_texts idx user_id = str_payloads (map match_text (tenant_records idx user_id))"

text \<open>\<open>sep.join\<close> on strings.\<close>

fun join_strings :: "string \<Rightarrow> string list \<Rightarrow> string" where
  "join_strings sep [] = []"
| "join_strings sep [s] = s"
| "join_strings sep (s # rest) = s @ sep @ join_strings sep rest"

section \<open>Answer generation (\<open>LLMService.generate_answer\<close>)\<close>

definition generic_llm_error :: string where
  "generic_llm_error =
     ''SERVICE_ERROR: Unable to generate a response. Please try again or check the server logs.''"

definition model_not_found :: "settings \<Rightarrow> string" where
  "model_not_found cfg =
     ''SERVICE_ERROR: Model '' @ sq @ LLM_MODEL cfg @ sq
       @ '' not found. Please check your model configuration.''"

text \<open>
  What stringifying a provider error does: it yields the text, or raises \<open>KeyError\<close>
  (the comment in the source names this hazard). No handler below calls it.
\<close>

definition api_error_str :: "string option \<Rightarrow> pyexn + string" where
  "api_error_str t = (case t of None \<Rightarrow> Inl (KeyError (sq @ ''type'' @ sq)) | Some s \<Rightarrow> Inr s)"

text \<open>\<open>except (KeyError, AttributeError, TypeError)\<close>.\<close>

fun is_parse_error :: "pyexn \<Rightarrow> bool" where
  "is_parse_error (KeyError s) = True"
| "is_parse_error (AttributeError s) = True"
| "is_parse_error (TypeError s) = True"
| "is_parse_error e = False"

text \<open>
  The second and third \<open>except\<close> clauses, for an exception that is not an API error.
  Each logs with \<open>exc_info=True\<close> before it returns, and that call is not guarded: what
  it raises leaves \<open>generate_answer\<close>.
\<close>

definition handle_exception :: "env \<Rightarrow> pyexn \<Rightarrow> pyexn + string" where
  "handle_exception env e =
     (if is_parse_error e then
        (case log_error_kw env (''Error parsing API response or error object: ''
                                  @ exn_name e @ '': '' @ exn_str e) of
           Some x \<Rightarrow> Inl x
         | None \<Rightarrow> Inr generic_llm_error)
      else
        (case log_error_kw env (''Unexpected error in LLM service: ''
                                  @ exn_name e @ '': '' @ exn_str e) of
           Some x \<Rightarrow> Inl x
         | None \<Rightarrow>
             Inr (''SERVICE_ERROR: Unable to generate a response. Error: ''
                    @ take 100 (exn_str e))))"

text \<open>
  The first \<open>except\<close> clause: only \<open>status_code\<close> is read (\<open>None\<close> if absent or if
  reading it fails). Its logging call has a fixed message and sits in a \<open>try\<close> of its
  own, so whatever it does, the answer follows.
\<close>

definition handle_api_error ::
  "env \<Rightarrow> settings \<Rightarrow> int option \<Rightarrow> string option \<Rightarrow> pyexn + string" where
  "handle_api_error env cfg status_code text =
     (case log_error_kw env ''Anthropic API error (see traceback)'' of
        Some x \<Rightarrow>
          (if status_code = Some 404 then Inr (model_not_found cfg) else Inr generic_llm_error)
      | None \<Rightarrow>
          (if status_code = Some 404 then Inr (model_not_found cfg) else Inr generic_llm_error))"

definition prompt_content :: "string \<Rightarrow> string \<Rightarrow> string" where
  "prompt_content query context =
     ''Here is the retrieved document context:'' @ nl @ ''<context>'' @ nl @ context @ nl
       @ ''</context>'' @ nl @ nl @ ''USER QUESTION: '' @ query"

text \<open>\<open>response.content[0].text\<close>.\<close>

definition first_text :: "content_block list \<Rightarrow> pyexn + string" where
  "first_text content =
     (case content of
        [] \<Rightarrow> Inl (IndexError ''list index out of range'')
      | TextBlock t # rest \<Rightarrow> Inr t
      | OtherBlock # rest \<Rightarrow>
          Inl (AttributeError (sq @ ''ToolUseBlock'' @ sq @ '' object has no attribute ''
                                 @ sq @ ''text'' @ sq)))"

text \<open>The arguments of \<open>client.messages.create\<close>.\<close>

definition messages_request :: "settings \<Rightarrow> string \<Rightarrow> string \<Rightarrow> string \<Rightarrow> llm_request" where
  "messages_request cfg system_prompt query context =
     \<lparr> req_model = LLM_MODEL cfg, req_max_tokens = 1024, req_temperature = 0,
       req_system = system_prompt, req_prompt = prompt_content query context \<rparr>"

definition generate_answer ::
  "env \<Rightarrow> settings \<Rightarrow> string \<Rightarrow> string \<Rightarrow> string \<Rightarrow> pyexn + string" where
  "generate_answer env cfg system_prompt query context =
     (case llm_create env (messages_request cfg system_prompt query context) of
        Response content \<Rightarrow>
          (case first_text content of
             Inl e \<Rightarrow> handle_exception env e
           | Inr answer \<Rightarrow> Inr answer)
      | RaisedAPIError status_code text \<Rightarrow> handle_api_error env cfg status_code text
      | Raised e \<Rightarrow> handle_exception env e)"

section \<open>The query endpoint (\<open>query_rag\<close>)\<close>

record ChatRequest =
  req_query :: string
  req_user_id :: string

record ChatResponse =
  answer :: string
  status :: string

text \<open>The request model with its default for an omitted \<open>user_id\<close>.\<close>

definition ChatRequest_new :: "string \<Rightarrow> string option \<Rightarrow> ChatRequest" where
  "ChatRequest_new q uid =
     \<lparr> req_query = q,
       req_user_id = (case uid of None \<Rightarrow> ''default_user'' | Some u \<Rightarrow> u) \<rparr>"

definition ChatResponse_new :: "string \<Rightarrow> string option \<Rightarrow> ChatResponse" where
  "ChatResponse_new a st =
     \<lparr> answer = a, status = (case st of None \<Rightarrow> ''success'' | Some t \<Rightarrow> t) \<rparr>"

text \<open>
  \<open>str.isspace\<close> and \<open>str.strip()\<close>. A character of the model is a code point
  below 256, so the whitespace listed is that of this range; text with other code
  points is not represented.
\<close>

definition py_isspace :: "char \<Rightarrow> bool" where
  "py_isspace c = ((of_char c :: nat) \<in> {9, 10, 11, 12, 13, 28, 29, 30, 31, 32, 133, 160})"

definition py_strip :: "string \<Rightarrow> string" where
  "py_strip s = rev (dropWhile py_isspace (rev (dropWhile py_isspace s)))"

definition try_again :: string where
  "try_again = ''An error occurred while processing your query. Please try again.''"

definition quoted :: "string \<Rightarrow> bool" where
  "quoted raw =
     ((prefix sq raw \<and> suffix sq raw) \<or> (prefix dq raw \<and> suffix dq raw))"

text \<open>The \<open>except\<close> clause of the endpoint, from the text of the exception.\<close>

definition error_answer :: "string \<Rightarrow> string" where
  "error_answer msg =
     (let raw = py_strip (take 200 msg)
      in if raw = [] then try_again
         else if length raw < 50 \<and> quoted raw then try_again
         else ''Error processing your query: '' @ raw)"

text \<open>
  The rule as the specification words it: the text truncated to 200 characters, with
  no stripping.
\<close>

definition spec_error_answer :: "string \<Rightarrow> string" where
  "spec_error_answer msg =
     (let t = take 200 msg
      in if t = [] \<or> (length t < 50 \<and> quoted t) then try_again
         else ''Error processing your query: '' @ t)"

definition no_documents :: string where
  "no_documents = ''I couldn't find any relevant documents to answer your question.''"

definition error_response :: "pyexn \<Rightarrow> ChatResponse" where
  "error_response e = ChatResponse_new (error_answer (exn_str e)) (Some ''error'')"

text \<open>
  The \<open>except\<close> clause of the endpoint: it logs with \<open>exc_info=True\<close> first, and that
  call is not guarded, so what it raises leaves the endpoint; otherwise the error
  response is returned.
\<close>

definition chat_except :: "env \<Rightarrow> pyexn \<Rightarrow> pyexn + ChatResponse" where
  "chat_except env e =
     (case log_error_kw env (''Chat request failed: '' @ exn_name e @ '': '' @ exn_str e) of
        Some x \<Rightarrow> Inl x
      | None \<Rightarrow> Inr (error_response e))"

definition query_rag ::
  "env \<Rightarrow> settings \<Rightarrow> string \<Rightarrow> vrecord list \<Rightarrow> ChatRequest \<Rightarrow> pyexn + ChatResponse" where
  "query_rag env cfg system_prompt idx request =
     (case get_context env cfg idx (req_query request) (req_user_id request) of
        Inl e \<Rightarrow> chat_except env e
      | Inr context \<Rightarrow>
          if context = [] then Inr (ChatResponse_new no_documents None)
          else
            (case generate_answer env cfg system_prompt (req_query request) context of
               Inl e \<Rightarrow> chat_except env e
             | Inr a \<Rightarrow> Inr (ChatResponse_new a None)))"

section \<open>The ingestion pipeline (\<open>run_ingestion_pipeline\<close>, \<open>upload_document\<close>)\<close>

text \<open>
  The world of an ingestion: the vector store, the files on disk, and the log of
  \<open>os.remove\<close> calls, each with whether it succeeded.
\<close>

record world =
  w_store :: vstore
  w_files :: "string set"
  w_removes :: "(string \<times> bool) list"

text \<open>The \<open>finally\<close> block.\<close>

definition cleanup :: "env \<Rightarrow> string \<Rightarrow> world \<Rightarrow> world" where
  "cleanup env file_path w =
     (if file_path \<in> w_files w then
        (case remove_error env file_path of
           None \<Rightarrow> w\<lparr> w_files := w_files w - {file_path},
                     w_removes := w_removes w @ [(file_path, True)] \<rparr>
         | Some e \<Rightarrow> w\<lparr> w_removes := w_removes w @ [(file_path, False)] \<rparr>)
      else w)"

text \<open>Which of the exits was taken; \<open>Failed e\<close> is the exception \<open>e\<close> leaving.\<close>

datatype exit_path = Ingested | NoChunks | Failed pyexn

text \<open>\<open>metadata.get(key, default)\<close>.\<close>

definition dict_get :: "pydict \<Rightarrow> string \<Rightarrow> pyval \<Rightarrow> pyval" where
  "dict_get d key dflt = (case map_of d key of None \<Rightarrow> dflt | Some v \<Rightarrow> v)"

text \<open>
  The part \<open>file_id={file_id}, filename={filename}, user_id={user_id}\<close> of the
  messages, where the three values are \<open>metadata.get(..., 'unknown')\<close>; formatting a
  value that is not a string can raise.
\<close>

definition ingestion_ids :: "env \<Rightarrow> pydict \<Rightarrow> pyexn + string" where
  "ingestion_ids env metadata =
     (case str_of env (dict_get metadata ''file_id'' (PStr ''unknown'')) of
        Inl e \<Rightarrow> Inl e
      | Inr file_id \<Rightarrow>
          (case str_of env (dict_get metadata ''filename'' (PStr ''unknown'')) of
             Inl e \<Rightarrow> Inl e
           | Inr filename \<Rightarrow>
               (case str_of env (dict_get metadata ''user_id'' (PStr ''unknown'')) of
                  Inl e \<Rightarrow> Inl e
                | Inr user_id \<Rightarrow>
                    Inr (''file_id='' @ file_id @ '', filename='' @ filename
                           @ '', user_id='' @ user_id))))"

text \<open>
  The \<open>try\<close> block: the first message is built, the file is parsed and chunked, and
  the chunks, if any, are embedded and upserted. \<open>Failed e\<close> here means that \<open>e\<close>
  was raised inside the block.
\<close>

definition ingestion_try :: "env \<Rightarrow> string \<Rightarrow> pydict \<Rightarrow> vstore \<Rightarrow> exit_path \<times> vstore" where
  "ingestion_try env file_path metadata s =
     (case ingestion_ids env metadata of
        Inl e \<Rightarrow> (Failed e, s)
      | Inr ids \<Rightarrow>
          (case process_file env file_path metadata of
             Inl e \<Rightarrow> (Failed e, s)
           | Inr chunks \<Rightarrow>
               if chunks = [] then (NoChunks, s)
               else
                 (case upsert_chunks env chunks s of
                    (Some e, s') \<Rightarrow> (Failed e, s')
                  | (None, s') \<Rightarrow> (Ingested, s'))))"

text \<open>
  What the logging call of the \<open>except\<close> clause raises, if anything, for the exception
  \<open>e\<close>: building its message can raise, and so can the logger, which is given
  \<open>exc_info=True\<close>.
\<close>

definition ingestion_failure_log :: "env \<Rightarrow> pydict \<Rightarrow> pyexn \<Rightarrow> pyexn option" where
  "ingestion_failure_log env metadata e =
     (case ingestion_ids env metadata of
        Inl x \<Rightarrow> Some x
      | Inr ids \<Rightarrow>
          log_error_kw env (''Background ingestion FAILED for '' @ ids @ '': '' @ exn_str e))"

text \<open>
  The \<open>try\<close> block with its \<open>except\<close> clause: the exception is logged and raised again,
  unless the logging call raises, in which case its exception leaves instead.
\<close>

definition ingestion_body :: "env \<Rightarrow> string \<Rightarrow> pydict \<Rightarrow> vstore \<Rightarrow> exit_path \<times> vstore" where
  "ingestion_body env file_path metadata s =
     (case ingestion_try env file_path metadata s of
        (Failed e, s') \<Rightarrow>
          (case ingestion_failure_log env metadata e of
             Some x \<Rightarrow> (Failed x, s')
           | None \<Rightarrow> (Failed e, s'))
      | (exit, s') \<Rightarrow> (exit, s'))"

definition run_ingestion_pipeline ::
  "env \<Rightarrow> string \<Rightarrow> pydict \<Rightarrow> world \<Rightarrow> exit_path \<times> world" where
  "run_ingestion_pipeline env file_path metadata w =
     (case ingestion_body env file_path metadata (w_store w) of
        (exit, s') \<Rightarrow> (exit, cleanup env file_path (w\<lparr> w_store := s' \<rparr>)))"

text \<open>How often \<open>file_path\<close> was removed from disk.\<close>

definition removals :: "string \<Rightarrow> world \<Rightarrow> nat" where
  "removals file_path w = length (filter (\<lambda>c. c = (file_path, True)) (w_removes w))"

text \<open>
  The upload endpoint: the form field \<open>user_id\<close> has the default \<open>default_user\<close>, and
  the metadata handed to the background task is built from it.
\<close>

definition form_user_id :: "string option \<Rightarrow> string" where
  "form_user_id uid = (case uid of None \<Rightarrow> ''default_user'' | Some u \<Rightarrow> u)"

datatype content_length = NoHeader | Malformed | Bytes int

text \<open>
  Saving the upload: it succeeds, \<open>open\<close> fails and no file is created, or the copy
  fails after \<open>open\<close> has created the file.
\<close>

datatype save_outcome = Saved | OpenFailed pyexn | CopyFailed pyexn

record upload =
  up_content_length :: content_length
  up_filename :: string
  up_extension :: string
  up_user_id :: "string option"
  up_save :: save_outcome

text \<open>What leaves the endpoint on failure: an HTTP error, or another exception.\<close>

datatype upload_error = HTTPException nat | Unhandled pyexn

record scheduled_task =
  task_file_path :: string
  task_metadata :: pydict

text \<open>
  A failed save is logged with \<open>exc_info=True\<close> and becomes the HTTP error 500. If that
  logging call raises, the outer \<open>except Exception\<close> clause logs in the same way and
  raises the HTTP error 500, unless its logging call raises too.
\<close>

definition save_failure :: "env \<Rightarrow> pyexn \<Rightarrow> upload_error" where
  "save_failure env e =
     (case log_error_kw env (''File save failed: '' @ exn_str e) of
        None \<Rightarrow> HTTPException 500
      | Some x \<Rightarrow>
          (case log_error_kw env (''Upload endpoint error: '' @ exn_str x) of
             None \<Rightarrow> HTTPException 500
           | Some y \<Rightarrow> Unhandled y))"

text \<open>
  \<open>up_extension\<close> is \<open>os.path.splitext(file.filename)[1].lower()\<close>, \<open>temp_dir\<close> the
  directory \<open>data/temp\<close> under the working directory, \<open>temp_file_id\<close> the fresh UUID.
  The result is the error raised, or the task scheduled for the background. Nothing
  removes a file that a failed copy leaves behind.
\<close>

definition upload_document ::
  "env \<Rightarrow> settings \<Rightarrow> string \<Rightarrow> string \<Rightarrow> upload \<Rightarrow> world
    \<Rightarrow> (upload_error + scheduled_task) \<times> world" where
  "upload_document env cfg temp_dir temp_file_id up w =
     (if (case up_content_length up of
            Bytes n \<Rightarrow> n > int (MAX_UPLOAD_MB cfg * 1024 * 1024)
          | _ \<Rightarrow> False)
      then (Inl (HTTPException 413), w)
      else if up_filename up = [] then (Inl (HTTPException 400), w)
      else if up_extension up \<notin> ALLOWED_EXTENSIONS cfg then (Inl (HTTPException 400), w)
      else
        (let file_path = temp_dir @ ''/'' @ temp_file_id @ up_extension up
         in case up_save up of
              OpenFailed e \<Rightarrow> (Inl (save_failure env e), w)
            | CopyFailed e \<Rightarrow>
                (Inl (save_failure env e), w\<lparr> w_files := insert file_path (w_files w) \<rparr>)
            | Saved \<Rightarrow>
                (Inr \<lparr> task_file_path = file_path,
                       task_metadata =
                         [(''file_id'', PStr temp_file_id),
                          (''filename'', PStr (up_filename up)),
                          (''user_id'', PStr (form_user_id (up_user_id up))),
                          (''extension'', PStr (up_extension up))] \<rparr>,
                 w\<lparr> w_files := insert file_path (w_files w) \<rparr>)))"

section \<open>The embedding model instances\<close>

text \<open>
  Process state: how many times a \<open>SentenceTransformer\<close> has been constructed, and the
  module-level \<open>_model\<close> of \<open>embeddings.py\<close>. An instance is identified by the number
  of its construction.
\<close>

record process =
  model_loads :: nat
  shared_model :: "nat option"

definition SentenceTransformer :: "process \<Rightarrow> nat \<times> process" where
  "SentenceTransformer p = (model_loads p, p\<lparr> model_loads := Suc (model_loads p) \<rparr>)"

definition get_embedding_model :: "process \<Rightarrow> nat \<times> process" where
  "get_embedding_model p =
     (case shared_model p of
        None \<Rightarrow>
          (case SentenceTransformer p of
             (m, p') \<Rightarrow> (m, p'\<lparr> shared_model := Some m \<rparr>))
      | Some m \<Rightarrow> (m, p))"

text \<open>\<open>VectorService.__init__\<close> and \<open>SearchService.__init__\<close>: the model each holds.\<close>

definition VectorService_init :: "process \<Rightarrow> nat \<times> process" where
  "VectorService_init p = SentenceTransformer p"

definition SearchService_init :: "process \<Rightarrow> nat \<times> process" where
  "SearchService_init p = SentenceTransformer p"

text \<open>
  Importing the application: \<open>main\<close> imports \<open>chat\<close>, which creates \<open>search_service\<close>,
  then \<open>ingest\<close>, which creates \<open>vector_service\<close>, both at module level. The result
  is the model of the search service, the model of the vector service and the process.
\<close>

definition import_app :: "process \<Rightarrow> nat \<times> nat \<times> process" where
  "import_app p =
     (case SearchService_init p of
        (search_model, p1) \<Rightarrow>
          (case VectorService_init p1 of
             (vector_model, p2) \<Rightarrow> (search_model, vector_model, p2)))"

definition fresh_process :: process where
  "fresh_process = \<lparr> model_loads = 0, shared_model = None \<rparr>"

section \<open>A test environment\<close>

text \<open>
  Concrete collaborators for evaluating the model: every call succeeds, the parser
  yields two elements, every embedding is the same vector, the reranker keeps the
  order it is given.
\<close>

definition test_json :: "pyval \<Rightarrow> pyexn + string" where
  "test_json v = Inr ''null''"

definition test_str :: "pyval \<Rightarrow> pyexn + string" where
  "test_str v = Inr ''object''"

definition test_docs :: "lc_document list" where
  "test_docs =
     [\<lparr> page_content = ''alpha'', doc_metadata = [(PStr ''page_number'', PInt 1)] \<rparr>,
      \<lparr> page_content = ''beta'', doc_metadata = [] \<rparr>]"

definition test_env :: env where
  "test_env =
     \<lparr> json_dumps = test_json,
       py_str = test_str,
       uuid4 = (\<lambda>i. ''uuid''),
       load_and_split = (\<lambda>p. Inr test_docs),
       encode = (\<lambda>h texts. Inr (map (\<lambda>t. [0]) texts)),
       upsert_error = (\<lambda>h vs. None),
       encode_query = (\<lambda>q. Inr [0]),
       query_error = (\<lambda>v. None),
       score = (\<lambda>a b. 0),
       rerank = (\<lambda>q docs n m. Inr [0..<min n (length docs)]),
       llm_create = (\<lambda>r. Response [TextBlock ''answer'']),
       remove_error = (\<lambda>p. None),
       format_error = (\<lambda>m. Some (IndexError
         ''Replacement index 0 out of range for positional args tuple'')) \<rparr>"

definition empty_store :: vstore where
  "empty_store = \<lparr> vs_index = [], vs_calls = [] \<rparr>"

definition test_chunk :: "string \<Rightarrow> string \<Rightarrow> chunk" where
  "test_chunk i u =
     \<lparr> chunk_id = i, chunk_text = ''text'',
       chunk_metadata = [(''user_id'', PStr u), (''text'', PStr ''text'')] \<rparr>"

text \<open>101 chunks: one full batch and one batch of a single chunk.\<close>

definition test_chunks :: "chunk list" where
  "test_chunks = replicate 100 (test_chunk ''a'' ''u1'') @ [test_chunk ''b'' ''u1'']"

text \<open>An index whose second upsert call fails (the trace then holds three calls).\<close>

definition flaky_env :: env where
  "flaky_env =
     test_env\<lparr> upsert_error :=
       (\<lambda>h vs. if length h = 3 then Some (OtherError ''PineconeException'' ''unavailable'')
               else None) \<rparr>"

text \<open>An embedding model whose second call fails (the trace then holds two calls).\<close>

definition encode_fail_env :: env where
  "encode_fail_env =
     test_env\<lparr> encode :=
       (\<lambda>h texts. if length h = 2 then Inl (OtherError ''RuntimeError'' ''out of memory'')
                  else Inr (map (\<lambda>t. [0]) texts)) \<rparr>"

text \<open>Raw metadata with one field of every kind the sanitizer distinguishes.\<close>

definition test_metadata :: pydict where
  "test_metadata =
     [(''user_id'', PStr ''u1''),
      (''coordinates'', PDict [(''x'', PInt 1)]),
      (''metadata_json'', PDict [(''a'', PInt 1)]),
      (''links'', PList [PInt 1]),
      (''languages'', PList [PStr ''eng'']),
      (''page'', PObj ''Page''),
      (''last_modified'', PNone)]"

definition test_sanitized :: pydict where
  "test_sanitized =
     [(''user_id'', PStr ''u1''),
      (''metadata_json'', PStr ''null''),
      (''languages'', PList [PStr ''eng'']),
      (''page'', PStr ''object'')]"

text \<open>A world in which the uploaded file is on disk and nothing is indexed yet.\<close>

definition test_path :: string where
  "test_path = ''data/temp/f1.txt''"

definition test_world :: world where
  "test_world = \<lparr> w_store = empty_store, w_files = {test_path}, w_removes = [] \<rparr>"

text \<open>The \<open>user_id\<close> entries of the records an index holds, in order.\<close>

definition persisted_user_ids :: "world \<Rightarrow> pyval option list" where
  "persisted_user_ids w = map (\<lambda>r. map_of (vec_metadata r) ''user_id'') (vs_index (w_store w))"

text \<open>The metadata the upload endpoint builds for the test file and a given tenant.\<close>

definition test_upload_metadata :: "string \<Rightarrow> pydict" where
  "test_upload_metadata u =
     [(''file_id'', PStr ''f1''), (''filename'', PStr ''report.txt''),
      (''user_id'', PStr u), (''extension'', PStr ''.txt'')]"

text \<open>
  An index with one record of tenant \<open>A\<close>, whose text holds a secret, and two
  records of tenant \<open>B\<close>.
\<close>

definition test_record :: "string \<Rightarrow> string \<Rightarrow> string \<Rightarrow> vrecord" where
  "test_record i u t =
     \<lparr> vec_id = i, vec_values = [0], vec_metadata = [(''user_id'', PStr u), (''text'', PStr t)] \<rparr>"

definition test_index :: "vrecord list" where
  "test_index =
     [test_record ''a1'' ''A'' ''password: ORANGE-SUNSET'',
      test_record ''b1'' ''B'' ''x'',
      test_record ''b2'' ''B'' ''y'']"

text \<open>
  Providers that fail: with an API error of a given status whose stringification
  raises, with a response whose first block has no text, and with an exception that
  is not an API error.
\<close>

definition api_error_env :: "int option \<Rightarrow> env" where
  "api_error_env sc = test_env\<lparr> llm_create := (\<lambda>r. RaisedAPIError sc None) \<rparr>"

definition malformed_env :: env where
  "malformed_env = test_env\<lparr> llm_create := (\<lambda>r. Response [OtherBlock]) \<rparr>"

definition raising_env :: "pyexn \<Rightarrow> env" where
  "raising_env e = test_env\<lparr> llm_create := (\<lambda>r. Raised e) \<rparr>"

text \<open>A retrieval pipeline whose embedding step raises the given exception.\<close>

definition broken_env :: "pyexn \<Rightarrow> env" where
  "broken_env e = test_env\<lparr> encode_query := (\<lambda>q. Inl e) \<rparr>"

text \<open>
  Ingestion environments: a parser that finds no text, a parser that raises, and a
  file system on which \<open>os.remove\<close> fails.
\<close>

definition empty_doc_env :: env where
  "empty_doc_env = test_env\<lparr> load_and_split := (\<lambda>p. Inr []) \<rparr>"

definition unparseable_env :: env where
  "unparseable_env =
     test_env\<lparr> load_and_split := (\<lambda>p. Inl (OtherError ''ValueError'' ''invalid file'')) \<rparr>"

definition locked_env :: env where
  "locked_env =
     test_env\<lparr> remove_error := (\<lambda>p. Some (OtherError ''PermissionError'' ''access denied'')) \<rparr>"

text \<open>An upload of the test file that omits the \<open>user_id\<close> form field.\<close>

definition test_upload :: upload where
  "test_upload =
     \<lparr> up_content_length = Bytes 1000, up_filename = ''report.txt'', up_extension = ''.txt'',
       up_user_id = None, up_save = Saved \<rparr>"

definition blank_world :: world where
  "blank_world = \<lparr> w_store = empty_store, w_files = {}, w_removes = [] \<rparr>"

text \<open>
  One caller uploads the test file without a \<open>user_id\<close> and the background task runs;
  the index that results.
\<close>

definition shared_index :: "vrecord list" where
  "shared_index =
     (case upload_document test_env default_settings ''data/temp'' ''f1'' test_upload
             blank_world of
        (Inl err, w1) \<Rightarrow> []
      | (Inr task, w1) \<Rightarrow>
          vs_index (w_store (snd (run_ingestion_pipeline test_env (task_file_path task)
                                     (task_metadata task) w1))))"

text \<open>A parser that raises an exception whose text holds a closing brace.\<close>

definition brace_doc_env :: env where
  "brace_doc_env =
     test_env\<lparr> load_and_split := (\<lambda>p. Inl (OtherError ''ValueError'' ''invalid } file'')) \<rparr>"

section \<open>Properties of the metadata sanitizer\<close>

lemma sanitize_field_index_value:
  "sanitize_field jd ps k v = Inr (Some v') \<Longrightarrow> index_value v'"
  by (cases v) (auto split: if_splits sum.splits)

lemma sanitize_field_cases:
  "\<not> index_value v \<Longrightarrow> sanitize_field jd ps k v = Inr r \<Longrightarrow>
     r = (if k \<in> exclude_fields \<or> v = PNone then None
          else if is_container v then spec_complex_field jd k v
          else (case ps v of Inl e \<Rightarrow> None | Inr s \<Rightarrow> Some (PStr s)))"
  by (cases v) (auto simp: spec_complex_field_def split: if_splits sum.splits)

lemma sanitize_field_str:
  "k \<notin> exclude_fields \<Longrightarrow> sanitize_field jd ps k (PStr s) = Inr (Some (PStr s))"
  by simp

declare sanitize_field.simps [simp del]

lemma sanitize_loop_other_key:
  "sanitize_loop jd ps md acc = Inr out \<Longrightarrow> k \<notin> fst ` set md \<Longrightarrow> map_of out k = map_of acc k"
proof (induction md arbitrary: acc)
  case Nil
  then show ?case by simp
next
  case (Cons p md)
  obtain key val where p: "p = (key, val)" by (cases p)
  with Cons.prems have kk: "k \<noteq> key" and km: "k \<notin> fst ` set md" by auto
  from Cons.prems(1) p show ?case
    using Cons.IH[OF _ km] kk
    by (auto simp: update_conv' split: sum.splits option.splits)
qed

lemma sanitize_loop_lookup:
  "sanitize_loop jd ps md acc = Inr out \<Longrightarrow> distinct (map fst md) \<Longrightarrow> (k, v) \<in> set md \<Longrightarrow>
     \<exists>r. sanitize_field jd ps k v = Inr r
        \<and> map_of out k = (case r of None \<Rightarrow> map_of acc k | Some v' \<Rightarrow> Some v')"
proof (induction md arbitrary: acc)
  case Nil
  then show ?case by simp
next
  case (Cons p md)
  obtain key val where p: "p = (key, val)" by (cases p)
  from Cons.prems(2) p have d: "distinct (map fst md)" and nk: "key \<notin> fst ` set md"
    by auto
  show ?case
  proof (cases "(k, v) = (key, val)")
    case True
    with Cons.prems(1) p nk show ?thesis
      by (auto simp: update_conv' split: sum.splits option.splits
               dest: sanitize_loop_other_key)
  next
    case False
    with Cons.prems(3) p have mem: "(k, v) \<in> set md" by auto
    with nk have kk: "k \<noteq> key" by force
    show ?thesis
    proof (cases "sanitize_field jd ps key val")
      case (Inl e)
      with Cons.prems(1) p show ?thesis by simp
    next
      case (Inr r)
      show ?thesis
      proof (cases r)
        case None
        with Inr Cons.prems(1) p have "sanitize_loop jd ps md acc = Inr out" by simp
        from Cons.IH[OF this d mem] show ?thesis .
      next
        case (Some w)
        with Inr Cons.prems(1) p
        have "sanitize_loop jd ps md (AList.update key w acc) = Inr out" by simp
        from Cons.IH[OF this d mem] kk show ?thesis
          by (auto simp: update_conv' split: option.splits)
      qed
    qed
  qed
qed

lemma sanitize_loop_values:
  "sanitize_loop jd ps md acc = Inr out \<Longrightarrow> (\<forall>k v. map_of acc k = Some v \<longrightarrow> index_value v) \<Longrightarrow>
     map_of out k = Some v \<Longrightarrow> index_value v"
proof (induction md arbitrary: acc)
  case Nil
  then show ?case by simp
next
  case (Cons p md)
  obtain key val where p: "p = (key, val)" by (cases p)
  show ?case
  proof (cases "sanitize_field jd ps key val")
    case (Inl e)
    with Cons.prems(1) p show ?thesis by simp
  next
    case (Inr r)
    show ?thesis
    proof (cases r)
      case None
      with Inr Cons.prems(1) p have "sanitize_loop jd ps md acc = Inr out" by simp
      from Cons.IH[OF this Cons.prems(2) Cons.prems(3)] show ?thesis .
    next
      case (Some w)
      with Inr Cons.prems(1) p
      have run: "sanitize_loop jd ps md (AList.update key w acc) = Inr out" by simp
      from Inr Some have "index_value w" by (auto dest: sanitize_field_index_value)
      with Cons.prems(2)
      have "\<forall>k v. map_of (AList.update key w acc) k = Some v \<longrightarrow> index_value v"
        by (auto simp: update_conv')
      from Cons.IH[OF run this Cons.prems(3)] show ?thesis .
    qed
  qed
qed

text \<open>
  Claim C6, as the code has it. When sanitization returns, every value of the output
  is a string, a number, a boolean or a list of strings. A field whose raw value is
  none of these is absent from the output if its key is on the exclusion list or the
  value is \<open>None\<close>; if the value is a list or a dict, it is the JSON string exactly
  when the key is on the complex-allowlist and absent otherwise; a value of any other
  type is replaced by its \<open>str\<close> conversion, whatever the key, and dropped only when
  that conversion fails. The input is a dictionary, so its keys are distinct.
\<close>

theorem sanitize_metadata_output:
  assumes "sanitize_metadata jd ps md = Inr out" and "distinct (map fst md)"
  shows "(\<forall>k v. map_of out k = Some v \<longrightarrow> index_value v)
       \<and> (\<forall>k v. (k, v) \<in> set md \<and> \<not> index_value v \<longrightarrow>
            map_of out k =
              (if k \<in> exclude_fields \<or> v = PNone then None
               else if is_container v then spec_complex_field jd k v
               else (case ps v of Inl e \<Rightarrow> None | Inr s \<Rightarrow> Some (PStr s))))"
proof (intro conjI allI impI)
  fix k v assume "map_of out k = Some v"
  with assms(1) show "index_value v"
    unfolding sanitize_metadata_def by (auto dest: sanitize_loop_values)
next
  fix k v assume a: "(k, v) \<in> set md \<and> \<not> index_value v"
  with assms obtain r where r: "sanitize_field jd ps k v = Inr r" "map_of out k = r"
    unfolding sanitize_metadata_def
    by (auto dest!: sanitize_loop_lookup split: option.splits)
  from sanitize_field_cases[OF _ r(1)] a r(2)
  show "map_of out k =
              (if k \<in> exclude_fields \<or> v = PNone then None
               else if is_container v then spec_complex_field jd k v
               else (case ps v of Inl e \<Rightarrow> None | Inr s \<Rightarrow> Some (PStr s)))"
    by simp
qed

text \<open>
  The theorem at the test metadata: the dict under \<open>metadata_json\<close> becomes a JSON
  string, the list of numbers under \<open>links\<close> is dropped.
\<close>

theorem sanitize_metadata_output_witness:
  "sanitize_metadata test_json test_str test_metadata = Inr test_sanitized
     \<and> distinct (map fst test_metadata)
     \<and> map_of test_sanitized ''metadata_json'' = Some (PStr ''null'')
     \<and> map_of test_sanitized ''links'' = None
     \<and> index_value (PStr ''null'')"
proof -
  have h1: "sanitize_metadata test_json test_str test_metadata = Inr test_sanitized"
    by code_simp
  have h2: "distinct (map fst test_metadata)"
    by (simp add: test_metadata_def)
  have m1: "(''metadata_json'', PDict [(''a'', PInt 1)]) \<in> set test_metadata"
    and m2: "(''links'', PList [PInt 1]) \<in> set test_metadata"
    by (simp_all add: test_metadata_def)
  note out = sanitize_metadata_output[OF h1 h2]
  from out have types: "\<forall>k v. map_of test_sanitized k = Some v \<longrightarrow> index_value v"
    by (rule conjunct1)
  from out have fields: "\<forall>k v. (k, v) \<in> set test_metadata \<and> \<not> index_value v \<longrightarrow>
      map_of test_sanitized k =
        (if k \<in> exclude_fields \<or> v = PNone then None
         else if is_container v then spec_complex_field test_json k v
         else (case test_str v of Inl e \<Rightarrow> None | Inr s \<Rightarrow> Some (PStr s)))"
    by (rule conjunct2)
  from fields[rule_format, of "''metadata_json''" "PDict [(''a'', PInt 1)]"] m1
  have f1: "map_of test_sanitized ''metadata_json'' = Some (PStr ''null'')"
    by (simp add: exclude_fields_def spec_complex_field_def json_fields_def test_json_def)
  from fields[rule_format, of "''links''" "PList [PInt 1]"] m2
  have f2: "map_of test_sanitized ''links'' = None"
    by (simp add: exclude_fields_def spec_complex_field_def json_fields_def)
  from types[rule_format, OF f1] have f3: "index_value (PStr ''null'')" .
  from h1 h2 f1 f2 f3 show ?thesis by simp
qed

text \<open>
  The claim as it is worded fails on two kinds of field. A \<open>None\<close> under the
  allowlisted key \<open>metadata_json\<close> is dropped, where the wording asks for a JSON
  string; an object of another type under a key that is not allowlisted is kept as its
  \<open>str\<close> conversion, where the wording asks for its absence.
\<close>

theorem sanitize_metadata_counterexample:
  "sanitize_metadata test_json test_str
       [(''metadata_json'', PNone), (''page'', PObj ''Page'')]
     = Inr [(''page'', PStr ''object'')]
   \<and> \<not> index_value PNone
   \<and> spec_complex_field test_json ''metadata_json'' PNone = Some (PStr ''null'')
   \<and> map_of [(''page'', PStr ''object'')] ''metadata_json'' = None
   \<and> \<not> index_value (PObj ''Page'')
   \<and> spec_complex_field test_json ''page'' (PObj ''Page'') = None
   \<and> map_of [(''page'', PStr ''object'')] ''page'' = Some (PStr ''object'')"
  by code_simp

section \<open>Properties of the batched upsert\<close>

lemma py_range_length:
  "0 < step \<Longrightarrow> length (py_range i stop step) = (stop - i + step - 1) div step"
proof (induction i stop step rule: py_range.induct)
  case (1 i stop step)
  show ?case
  proof (cases "i < stop")
    case True
    with 1 have len: "length (py_range i stop step)
        = Suc ((stop - (i + step) + step - 1) div step)"
      by (subst py_range.simps) simp
    show ?thesis
    proof (cases "i + step \<le> stop")
      case le: True
      define x where "x = stop - (i + step) + step - 1"
      from le 1(2) have "stop - i + step - 1 = x + step"
        unfolding x_def by simp
      moreover from 1(2) have "(x + step) div step = Suc (x div step)" by simp
      ultimately show ?thesis using len unfolding x_def by simp
    next
      case False
      with True 1(2) have a: "stop - (i + step) + step - 1 = step - 1" by simp
      define y where "y = stop - i - 1"
      from False True have c: "y < step" unfolding y_def by simp
      from True 1(2) have b: "stop - i + step - 1 = y + step" unfolding y_def by simp
      from 1(2) c have "(y + step) div step = Suc 0" by simp
      moreover from 1(2) have "(step - 1) div step = 0" by simp
      ultimately show ?thesis using len a b by simp
    qed
  next
    case False
    with 1(2) show ?thesis by (subst py_range.simps) simp
  qed
qed

lemma py_range_concat:
  "0 < step \<Longrightarrow>
     concat (map (\<lambda>j. take step (drop j xs)) (py_range i (length xs) step)) = drop i xs"
proof (induction i "length xs" step rule: py_range.induct)
  case (1 i step)
  show ?case
  proof (cases "i < length xs")
    case True
    with 1 have "concat (map (\<lambda>j. take step (drop j xs)) (py_range i (length xs) step))
        = take step (drop i xs) @ drop (i + step) xs"
      by (subst py_range.simps) simp
    also have "\<dots> = drop i xs"
      by (metis add.commute append_take_drop_id drop_drop)
    finally show ?thesis .
  next
    case False
    with 1(2) show ?thesis by (subst py_range.simps) simp
  qed
qed

lemma py_range_bound:
  "j \<in> set (py_range i stop step) \<Longrightarrow> j < stop"
proof (induction i stop step rule: py_range.induct)
  case (1 i stop step)
  show ?case
  proof (cases "0 < step \<and> i < stop")
    case True
    with 1(2) have "j = i \<or> j \<in> set (py_range (i + step) stop step)"
      by (subst (asm) py_range.simps) simp
    with True 1(1) show ?thesis by auto
  next
    case False
    with 1(2) show ?thesis by (subst (asm) py_range.simps) simp
  qed
qed

lemma ceil_div_100: "nat \<lceil>real n / 100\<rceil> = (n + 99) div 100"
proof -
  have "\<lceil>real n / 100\<rceil> = \<lceil>of_int (int n) / (of_int 100 :: real)\<rceil>" by simp
  also have "\<dots> = - (- int n div 100)" by (rule ceiling_divide_eq_div)
  also have "\<dots> = (int n + 99) div 100" by linarith
  finally show ?thesis by (simp add: nat_div_distrib)
qed


lemma build_vectors_length:
  "build_vectors env zs = Inr vs \<Longrightarrow> length vs = length zs"
proof (induction zs arbitrary: vs)
  case Nil
  then show ?case by simp
next
  case (Cons z zs)
  obtain c emb where z: "z = (c, emb)" by (cases z)
  from Cons.prems z show ?case
    by (auto split: sum.splits dest: Cons.IH)
qed

lemma upsert_batch_ok:
  assumes "upsert_batch env b s = (None, s')"
  shows "\<exists>vs. length vs \<le> length b
           \<and> vs_calls s' = vs_calls s @ batch_calls b vs
           \<and> vs_index s' = index_upsert vs (vs_index s)"
proof -
  from assms obtain embs vs where
    e: "encode env (vs_calls s) (map chunk_text b) = Inr embs" and
    b: "build_vectors env (zip b embs) = Inr vs" and
    s': "s' = s\<lparr> vs_calls := vs_calls s @ batch_calls b vs,
                  vs_index := index_upsert vs (vs_index s) \<rparr>"
    unfolding upsert_batch_def batch_calls_def
    by (auto simp: Let_def split: sum.splits option.splits)
  from b have "length vs \<le> length b"
    by (auto dest: build_vectors_length)
  with s' show ?thesis by auto
qed

lemma upsert_batch_failed:
  assumes "upsert_batch env b s = (Some e, s')"
  shows "vs_index s' = vs_index s
       \<and> (\<exists>tail. vs_calls s' = vs_calls s @ Encode (map chunk_text b) # tail
                \<and> (tail = [] \<or> (\<exists>vs. tail = [Upsert vs])))"
  using assms unfolding upsert_batch_def
  by (auto simp: Let_def split: sum.splits option.splits)

lemma upsert_batch_no_delete:
  "upsert_batch env b s = (res, s') \<Longrightarrow>
     filter is_Delete (vs_calls s') = filter is_Delete (vs_calls s)"
  unfolding upsert_batch_def
  by (auto simp: Let_def split: sum.splits option.splits)

lemma upsert_loop_no_delete:
  "upsert_loop env chunks starts s = (res, s') \<Longrightarrow>
     filter is_Delete (vs_calls s') = filter is_Delete (vs_calls s)"
proof (induction starts arbitrary: s)
  case Nil
  then show ?case by simp
next
  case (Cons i starts)
  obtain res1 s1 where b: "upsert_batch env (take batch_size (drop i chunks)) s = (res1, s1)"
    by (cases "upsert_batch env (take batch_size (drop i chunks)) s")
  show ?case
  proof (cases res1)
    case (Some e)
    with b Cons.prems have "s' = s1" by simp
    with upsert_batch_no_delete[OF b] show ?thesis by simp
  next
    case None
    with b Cons.prems have "upsert_loop env chunks starts s1 = (res, s')" by simp
    from Cons.IH[OF this] upsert_batch_no_delete[OF b] show ?thesis by simp
  qed
qed

lemma upsert_chunks_no_delete:
  "upsert_chunks env chunks s = (res, s') \<Longrightarrow>
     filter is_Delete (vs_calls s') = filter is_Delete (vs_calls s)"
  unfolding upsert_chunks_def
  by (auto split: if_splits dest: upsert_loop_no_delete)

lemma upsert_loop_append:
  "upsert_loop env chunks (is1 @ is2) s =
     (case upsert_loop env chunks is1 s of
        (Some e, s') \<Rightarrow> (Some e, s')
      | (None, s') \<Rightarrow> upsert_loop env chunks is2 s')"
  by (induction is1 arbitrary: s) (auto split: prod.splits option.splits)

lemma upsert_loop_ok:
  "upsert_loop env chunks starts s = (None, s') \<Longrightarrow>
     \<exists>vss. list_all2 (\<lambda>b vs. length vs \<le> length b) (map (slice chunks) starts) vss
          \<and> vs_calls s' = vs_calls s @ concat (map2 batch_calls (map (slice chunks) starts) vss)
          \<and> vs_index s' = fold index_upsert vss (vs_index s)"
proof (induction starts arbitrary: s)
  case Nil
  then show ?case by simp
next
  case (Cons i starts)
  from Cons.prems obtain s1 where
    b: "upsert_batch env (slice chunks i) s = (None, s1)" and
    r: "upsert_loop env chunks starts s1 = (None, s')"
    by (auto simp: slice_def split: prod.splits option.splits)
  from upsert_batch_ok[OF b] obtain vs where vs:
    "length vs \<le> length (slice chunks i)"
    "vs_calls s1 = vs_calls s @ batch_calls (slice chunks i) vs"
    "vs_index s1 = index_upsert vs (vs_index s)" by blast
  from Cons.IH[OF r] obtain vss where vss:
    "list_all2 (\<lambda>b vs. length vs \<le> length b) (map (slice chunks) starts) vss"
    "vs_calls s' = vs_calls s1 @ concat (map2 batch_calls (map (slice chunks) starts) vss)"
    "vs_index s' = fold index_upsert vss (vs_index s1)" by blast
  show ?case
    by (rule exI[of _ "vs # vss"]) (use vs vss in simp)
qed


lemma batches_of_slice:
  "batches_of chunks = map (slice chunks) (py_range 0 (length chunks) batch_size)"
  by (simp add: batches_of_def)

lemma slice_fun: "slice chunks = (\<lambda>i. take batch_size (drop i chunks))"
  by (rule ext) (simp add: slice_def)

lemma batches_of_concat: "concat (batches_of chunks) = chunks"
  using py_range_concat[of batch_size chunks 0]
  by (simp add: batches_of_def slice_fun batch_size_def)

lemma batches_of_length: "length (batches_of chunks) = nat \<lceil>real (length chunks) / 100\<rceil>"
  using py_range_length[of batch_size 0 "length chunks"]
  by (simp add: batches_of_def batch_size_def ceil_div_100)

lemma batches_of_bounds:
  assumes "b \<in> set (batches_of chunks)"
  shows "b \<noteq> [] \<and> length b \<le> 100"
proof -
  from assms obtain i where i: "i \<in> set (py_range 0 (length chunks) batch_size)"
    and b: "b = take batch_size (drop i chunks)"
    by (auto simp: batches_of_def slice_def)
  from py_range_bound[OF i] b show ?thesis by (simp add: batch_size_def)
qed

text \<open>
  Claim C7. For a non-empty chunk list on which \<open>upsert_chunks\<close> returns without an
  error, the batches are contiguous slices that concatenate to the list, there are
  \<open>ceil(N / 100)\<close> of them, each non-empty and of at most 100 chunks, and the calls
  issued are, batch after batch in order, one embedding call on exactly the texts of
  the batch followed by one upsert call with at most as many records as the batch has
  chunks.
\<close>

theorem upsert_chunks_batching:
  assumes "chunks \<noteq> []" and "upsert_chunks env chunks s = (None, s')"
  shows "concat (batches_of chunks) = chunks
       \<and> length (batches_of chunks) = nat \<lceil>real (length chunks) / 100\<rceil>
       \<and> list_all (\<lambda>b. b \<noteq> [] \<and> length b \<le> 100) (batches_of chunks)
       \<and> (\<exists>vss. list_all2 (\<lambda>b vs. length vs \<le> length b) (batches_of chunks) vss
                \<and> vs_calls s' = vs_calls s @ concat (map2 batch_calls (batches_of chunks) vss))"
proof -
  from assms have "upsert_loop env chunks (py_range 0 (length chunks) batch_size) s = (None, s')"
    by (simp add: upsert_chunks_def)
  from upsert_loop_ok[OF this] have
    "\<exists>vss. list_all2 (\<lambda>b vs. length vs \<le> length b) (batches_of chunks) vss
          \<and> vs_calls s' = vs_calls s @ concat (map2 batch_calls (batches_of chunks) vss)"
    unfolding batches_of_slice by blast
  moreover have "list_all (\<lambda>b. b \<noteq> [] \<and> length b \<le> 100) (batches_of chunks)"
    unfolding list_all_iff using batches_of_bounds by blast
  ultimately show ?thesis
    using batches_of_concat batches_of_length by blast
qed

lemma upsert_chunks_abort_at:
  assumes "k < length (batches_of chunks)"
    and "upsert_loop env chunks (take k (py_range 0 (length chunks) batch_size)) s = (None, s1)"
    and "upsert_batch env (batches_of chunks ! k) s1 = (Some e, s2)"
  shows "upsert_chunks env chunks s = (Some e, s2)
       \<and> (\<exists>vss tail. length vss = k
             \<and> vs_calls s2 = vs_calls s
                  @ concat (map2 batch_calls (take k (batches_of chunks)) vss)
                  @ Encode (map chunk_text (batches_of chunks ! k)) # tail
             \<and> (tail = [] \<or> (\<exists>vs. tail = [Upsert vs]))
             \<and> vs_index s2 = fold index_upsert vss (vs_index s))
       \<and> filter is_Delete (vs_calls s2) = filter is_Delete (vs_calls s)"
proof -
  let ?starts = "py_range 0 (length chunks) batch_size"
  from assms(1) have k: "k < length ?starts" by (simp add: batches_of_def)
  then have split: "?starts = take k ?starts @ (?starts ! k) # drop (Suc k) ?starts"
    by (simp add: id_take_nth_drop)
  from k have nth: "batches_of chunks ! k = take batch_size (drop (?starts ! k) chunks)"
    by (simp add: batches_of_def slice_def)
  from k have ne: "chunks \<noteq> []"
    by (subst (asm) py_range.simps) (auto split: if_splits)
  have "upsert_loop env chunks ?starts s
      = upsert_loop env chunks (take k ?starts @ (?starts ! k) # drop (Suc k) ?starts) s"
    using split by simp
  also have "\<dots> = (Some e, s2)"
    using assms(2,3) nth by (simp add: upsert_loop_append)
  finally have res: "upsert_chunks env chunks s = (Some e, s2)"
    using ne by (simp add: upsert_chunks_def)
  from upsert_loop_ok[OF assms(2)] obtain vss where vss:
    "list_all2 (\<lambda>b vs. length vs \<le> length b) (map (slice chunks) (take k ?starts)) vss"
    "vs_calls s1 = vs_calls s @ concat (map2 batch_calls (map (slice chunks) (take k ?starts)) vss)"
    "vs_index s1 = fold index_upsert vss (vs_index s)" by blast
  from vss(1) k have len: "length vss = k"
    by (auto dest: list_all2_lengthD)
  have tk: "map (slice chunks) (take k ?starts) = take k (batches_of chunks)"
    by (simp add: batches_of_slice take_map)
  from upsert_batch_failed[OF assms(3)] obtain tail where tail:
    "vs_index s2 = vs_index s1"
    "vs_calls s2 = vs_calls s1 @ Encode (map chunk_text (batches_of chunks ! k)) # tail"
    "tail = [] \<or> (\<exists>vs. tail = [Upsert vs])" by blast
  from len vss(2,3) tail tk
  have "\<exists>vss tail. length vss = k
             \<and> vs_calls s2 = vs_calls s
                  @ concat (map2 batch_calls (take k (batches_of chunks)) vss)
                  @ Encode (map chunk_text (batches_of chunks ! k)) # tail
             \<and> (tail = [] \<or> (\<exists>vs. tail = [Upsert vs]))
             \<and> vs_index s2 = fold index_upsert vss (vs_index s)"
    by (intro exI[of _ vss] exI[of _ tail]) simp
  with res upsert_chunks_no_delete[OF res] show ?thesis by blast
qed


lemma upsert_batch_call_failure:
  assumes "encode env (vs_calls s) (map chunk_text b) = Inl e
     \<or> (\<exists>embs. encode env (vs_calls s) (map chunk_text b) = Inr embs
               \<and> build_vectors env (zip b embs) = Inl e)
     \<or> (\<exists>embs vs. encode env (vs_calls s) (map chunk_text b) = Inr embs
               \<and> build_vectors env (zip b embs) = Inr vs
               \<and> upsert_error env (vs_calls s @ [Encode (map chunk_text b)]) vs = Some e)"
  shows "\<exists>s'. upsert_batch env b s = (Some e, s')"
  using assms unfolding upsert_batch_def
  by (auto simp: Let_def)

lemma upsert_batch_success_iff:
  "(\<exists>s'. upsert_batch env b s = (None, s')) \<longleftrightarrow>
     (\<exists>embs vs. encode env (vs_calls s) (map chunk_text b) = Inr embs
               \<and> build_vectors env (zip b embs) = Inr vs
               \<and> upsert_error env (vs_calls s @ [Encode (map chunk_text b)]) vs = None)"
  unfolding upsert_batch_def
  by (auto simp: Let_def split: sum.splits option.splits)

text \<open>
  Claim C5. Let the first \<open>k\<close> batches go through, leaving the store \<open>s1\<close>, and let
  batch \<open>k\<close> fail with \<open>e\<close>: its embedding call raises \<open>e\<close>, or building its records
  does, or its upsert call does. Then \<open>upsert_chunks\<close> raises \<open>e\<close>; the calls issued
  are the embedding and upsert calls of the first \<open>k\<close> batches, the embedding call of
  batch \<open>k\<close> and at most its upsert attempt, so there is no call for a later batch and
  no delete; and the index holds the \<open>k\<close> upserts that went through.
\<close>

theorem upsert_chunks_abort:
  assumes "k < length (batches_of chunks)"
    and "upsert_loop env chunks (take k (py_range 0 (length chunks) batch_size)) s = (None, s1)"
    and "encode env (vs_calls s1) (map chunk_text (batches_of chunks ! k)) = Inl e
     \<or> (\<exists>embs. encode env (vs_calls s1) (map chunk_text (batches_of chunks ! k)) = Inr embs
               \<and> build_vectors env (zip (batches_of chunks ! k) embs) = Inl e)
     \<or> (\<exists>embs vs. encode env (vs_calls s1) (map chunk_text (batches_of chunks ! k)) = Inr embs
               \<and> build_vectors env (zip (batches_of chunks ! k) embs) = Inr vs
               \<and> upsert_error env
                    (vs_calls s1 @ [Encode (map chunk_text (batches_of chunks ! k))]) vs = Some e)"
  shows "\<exists>s2. upsert_chunks env chunks s = (Some e, s2)
       \<and> (\<exists>vss tail. length vss = k
             \<and> vs_calls s2 = vs_calls s
                  @ concat (map2 batch_calls (take k (batches_of chunks)) vss)
                  @ Encode (map chunk_text (batches_of chunks ! k)) # tail
             \<and> (tail = [] \<or> (\<exists>vs. tail = [Upsert vs]))
             \<and> vs_index s2 = fold index_upsert vss (vs_index s))
       \<and> filter is_Delete (vs_calls s2) = filter is_Delete (vs_calls s)"
proof -
  from upsert_batch_call_failure[OF assms(3)] obtain s2 where
    "upsert_batch env (batches_of chunks ! k) s1 = (Some e, s2)" by blast
  from upsert_chunks_abort_at[OF assms(1,2) this] show ?thesis by blast
qed

text \<open>
  The theorem at 101 chunks, first with an index whose second upsert fails, then with a
  model whose second embedding call fails: each time the error comes back and the
  record of the first batch is in the index; four calls were issued in the first run
  and three in the second.
\<close>

theorem upsert_chunks_abort_witness:
  "1 < length (batches_of test_chunks)
     \<and> fst (upsert_loop flaky_env test_chunks
               (take 1 (py_range 0 (length test_chunks) batch_size)) empty_store) = None
     \<and> fst (upsert_chunks flaky_env test_chunks empty_store)
         = Some (OtherError ''PineconeException'' ''unavailable'')
     \<and> length (vs_calls (snd (upsert_chunks flaky_env test_chunks empty_store))) = 4
     \<and> length (vs_index (snd (upsert_chunks flaky_env test_chunks empty_store))) = 1
     \<and> fst (upsert_loop encode_fail_env test_chunks
               (take 1 (py_range 0 (length test_chunks) batch_size)) empty_store) = None
     \<and> fst (upsert_chunks encode_fail_env test_chunks empty_store)
         = Some (OtherError ''RuntimeError'' ''out of memory'')
     \<and> length (vs_calls (snd (upsert_chunks encode_fail_env test_chunks empty_store))) = 3
     \<and> length (vs_index (snd (upsert_chunks encode_fail_env test_chunks empty_store))) = 1"
proof -
  let ?starts = "take 1 (py_range 0 (length test_chunks) batch_size)"
  let ?b = "batches_of test_chunks ! 1"
  define s1 where "s1 = snd (upsert_loop flaky_env test_chunks ?starts empty_store)"
  define t1 where "t1 = snd (upsert_loop encode_fail_env test_chunks ?starts empty_store)"
  have h1: "1 < length (batches_of test_chunks)"
    by code_simp
  have f1: "fst (upsert_loop flaky_env test_chunks ?starts empty_store) = None"
    by code_simp
  then have h2: "upsert_loop flaky_env test_chunks ?starts empty_store = (None, s1)"
    unfolding s1_def by (simp add: prod_eq_iff)
  have g1: "fst (upsert_loop encode_fail_env test_chunks ?starts empty_store) = None"
    by code_simp
  then have k2: "upsert_loop encode_fail_env test_chunks ?starts empty_store = (None, t1)"
    unfolding t1_def by (simp add: prod_eq_iff)
  have l1: "length (vs_calls s1) = 2" unfolding s1_def by code_simp
  have l2: "length (vs_calls t1) = 2" unfolding t1_def by code_simp
  have enc: "encode flaky_env (vs_calls s1) (map chunk_text ?b)
      = Inr (map (\<lambda>t. [0]) (map chunk_text ?b))"
    by (simp add: flaky_env_def test_env_def)
  have bv: "\<not> isl (build_vectors flaky_env
      (zip ?b (map (\<lambda>t. [0]) (map chunk_text ?b))))"
    by code_simp
  then obtain vs where vs: "build_vectors flaky_env
      (zip ?b (map (\<lambda>t. [0]) (map chunk_text ?b))) = Inr vs"
    by (cases "build_vectors flaky_env (zip ?b (map (\<lambda>t. [0]) (map chunk_text ?b)))") auto
  from l1 have ue: "upsert_error flaky_env (vs_calls s1 @ [Encode (map chunk_text ?b)]) vs
      = Some (OtherError ''PineconeException'' ''unavailable'')"
    by (simp add: flaky_env_def)
  from enc vs ue have h3:
    "encode flaky_env (vs_calls s1) (map chunk_text ?b)
       = Inl (OtherError ''PineconeException'' ''unavailable'')
     \<or> (\<exists>embs. encode flaky_env (vs_calls s1) (map chunk_text ?b) = Inr embs
               \<and> build_vectors flaky_env (zip ?b embs)
                   = Inl (OtherError ''PineconeException'' ''unavailable''))
     \<or> (\<exists>embs vs. encode flaky_env (vs_calls s1) (map chunk_text ?b) = Inr embs
               \<and> build_vectors flaky_env (zip ?b embs) = Inr vs
               \<and> upsert_error flaky_env (vs_calls s1 @ [Encode (map chunk_text ?b)]) vs
                   = Some (OtherError ''PineconeException'' ''unavailable''))"
    by blast
  from l2 have k3:
    "encode encode_fail_env (vs_calls t1) (map chunk_text ?b)
       = Inl (OtherError ''RuntimeError'' ''out of memory'')
     \<or> (\<exists>embs. encode encode_fail_env (vs_calls t1) (map chunk_text ?b) = Inr embs
               \<and> build_vectors encode_fail_env (zip ?b embs)
                   = Inl (OtherError ''RuntimeError'' ''out of memory''))
     \<or> (\<exists>embs vs. encode encode_fail_env (vs_calls t1) (map chunk_text ?b) = Inr embs
               \<and> build_vectors encode_fail_env (zip ?b embs) = Inr vs
               \<and> upsert_error encode_fail_env
                    (vs_calls t1 @ [Encode (map chunk_text ?b)]) vs
                   = Some (OtherError ''RuntimeError'' ''out of memory''))"
    by (simp add: encode_fail_env_def)
  from upsert_chunks_abort[OF h1 h2 h3]
  have r1: "fst (upsert_chunks flaky_env test_chunks empty_store)
      = Some (OtherError ''PineconeException'' ''unavailable'')"
    by auto
  from upsert_chunks_abort[OF h1 k2 k3]
  have r2: "fst (upsert_chunks encode_fail_env test_chunks empty_store)
      = Some (OtherError ''RuntimeError'' ''out of memory'')"
    by auto
  have c1: "length (vs_calls (snd (upsert_chunks flaky_env test_chunks empty_store))) = 4"
    by code_simp
  have i1: "length (vs_index (snd (upsert_chunks flaky_env test_chunks empty_store))) = 1"
    by code_simp
  have c2: "length (vs_calls (snd (upsert_chunks encode_fail_env test_chunks empty_store))) = 3"
    by code_simp
  have i2: "length (vs_index (snd (upsert_chunks encode_fail_env test_chunks empty_store))) = 1"
    by code_simp
  from h1 f1 r1 c1 i1 g1 r2 c2 i2 show ?thesis by simp
qed

text \<open>
  The batching theorem at 101 chunks with collaborators that do not fail: two batches
  and four calls.
\<close>

theorem upsert_chunks_batching_witness:
  "test_chunks \<noteq> []
     \<and> fst (upsert_chunks test_env test_chunks empty_store) = None
     \<and> length (batches_of test_chunks) = 2
     \<and> concat (batches_of test_chunks) = test_chunks"
proof -
  have h1: "test_chunks \<noteq> []"
    by (simp add: test_chunks_def)
  have f: "fst (upsert_chunks test_env test_chunks empty_store) = None"
    by code_simp
  then have h2: "upsert_chunks test_env test_chunks empty_store
      = (None, snd (upsert_chunks test_env test_chunks empty_store))"
    by (simp add: prod_eq_iff)
  note b = upsert_chunks_batching[OF h1 h2]
  from b have c: "concat (batches_of test_chunks) = test_chunks"
    by (rule conjunct1)
  from b have "length (batches_of test_chunks) = nat \<lceil>real (length test_chunks) / 100\<rceil>"
    by (rule conjunct2[THEN conjunct1])
  moreover have "length test_chunks = 101"
    by (simp add: test_chunks_def)
  moreover have "nat \<lceil>real 101 / 100\<rceil> = 2"
    by (simp add: ceil_div_100)
  ultimately have l: "length (batches_of test_chunks) = 2" by simp
  from h1 f l c show ?thesis by simp
qed

section \<open>Properties of the ingestion path\<close>

lemma merge_dict_lookup:
  "distinct (map fst b) \<Longrightarrow> map_of b k = Some v \<Longrightarrow> map_of (merge_dict a b) k = Some v"
  unfolding merge_dict_def
proof (induction b arbitrary: a)
  case Nil
  then show ?case by simp
next
  case (Cons p b)
  obtain k' v' where p: "p = (k', v')" by (cases p)
  show ?case
  proof (cases "k = k'")
    case True
    with Cons.prems p have v: "v' = v" and nk: "k \<notin> fst ` set b" by auto
    have "\<And>acc. k \<notin> fst ` set b \<Longrightarrow>
        map_of (fold (\<lambda>(k, v). AList.update k v) b acc) k = map_of acc k"
      by (induction b) (auto simp: update_conv')
    from this[OF nk] p True v show ?thesis by (simp add: update_conv')
  next
    case False
    with Cons.prems p have "distinct (map fst b)" "map_of b k = Some v" by auto
    from Cons.IH[OF this] p show ?thesis by simp
  qed
qed

lemma fold_update_distinct:
  "distinct (map fst a) \<Longrightarrow> distinct (map fst (fold (\<lambda>(k, v). AList.update k v) b a))"
  by (induction b arbitrary: a) (auto simp: distinct_update)

lemma filter_chunk_metadata_distinct:
  "filter_chunk_metadata env md acc = Inr m \<Longrightarrow> distinct (map fst acc) \<Longrightarrow> distinct (map fst m)"
proof (induction md arbitrary: acc)
  case Nil
  then show ?case by simp
next
  case (Cons p md)
  obtain k v where p: "p = (k, v)" by (cases p)
  from Cons.prems p show ?case
    by (auto split: if_splits sum.splits intro: Cons.IH simp: distinct_update)
qed

lemma process_chunks_metadata:
  assumes "distinct (map fst metadata)" and "map_of metadata ''user_id'' = Some v"
  shows "process_chunks env metadata i docs = Inr chunks \<Longrightarrow> c \<in> set chunks \<Longrightarrow>
     distinct (map fst (chunk_metadata c)) \<and> map_of (chunk_metadata c) ''user_id'' = Some v"
proof (induction docs arbitrary: i chunks)
  case Nil
  then show ?case by simp
next
  case (Cons d docs)
  from Cons.prems(1) obtain fid rest where
    rest: "process_chunks env metadata (Suc i) docs = Inr rest" and
    chunks: "chunks = \<lparr> chunk_id = fid @ ''#chunk'' @ string_of_nat i, chunk_text = page_content d,
       chunk_metadata = AList.update ''text'' (PStr (page_content d))
         (merge_dict (if doc_metadata d \<noteq> [] then
                    (case filter_chunk_metadata env (doc_metadata d) [] of
                       Inl e \<Rightarrow> []
                     | Inr m \<Rightarrow> m)
                  else []) metadata) \<rparr> # rest"
    by (auto simp: Let_def split: sum.splits)
  let ?md = "(if doc_metadata d \<noteq> [] then
                    (case filter_chunk_metadata env (doc_metadata d) [] of
                       Inl e \<Rightarrow> []
                     | Inr m \<Rightarrow> m)
                  else [])"
  have dm: "distinct (map fst ?md)"
    by (auto split: sum.splits dest: filter_chunk_metadata_distinct)
  show ?case
  proof (cases "c \<in> set rest")
    case True
    from Cons.IH[OF rest True] show ?thesis .
  next
    case False
    with Cons.prems(2) chunks
    have c: "chunk_metadata c = AList.update ''text'' (PStr (page_content d)) (merge_dict ?md metadata)"
      by auto
    from dm have "distinct (map fst (merge_dict ?md metadata))"
      unfolding merge_dict_def by (rule fold_update_distinct)
    moreover from merge_dict_lookup[OF assms] have "map_of (merge_dict ?md metadata) ''user_id'' = Some v" .
    ultimately show ?thesis unfolding c by (simp add: distinct_update update_conv')
  qed
qed

lemma sanitize_keeps_user_id:
  assumes "distinct (map fst md)" and "map_of md ''user_id'' = Some (PStr u)"
    and "sanitize_metadata jd ps md = Inr out"
  shows "map_of out ''user_id'' = Some (PStr u)"
proof -
  from assms(2) have mem: "(''user_id'', PStr u) \<in> set md" by (rule map_of_SomeD)
  have "''user_id'' \<notin> exclude_fields" by (simp add: exclude_fields_def)
  then have "sanitize_field jd ps ''user_id'' (PStr u) = Inr (Some (PStr u))"
    by (rule sanitize_field_str)
  with sanitize_loop_lookup[OF assms(3)[unfolded sanitize_metadata_def] assms(1) mem]
  show ?thesis by auto
qed

lemma build_vectors_owned:
  "build_vectors env zs = Inr vs \<Longrightarrow> list_all (tagged u) (map fst zs) \<Longrightarrow> list_all (owned u) vs"
proof (induction zs arbitrary: vs)
  case Nil
  then show ?case by simp
next
  case (Cons z zs)
  obtain c emb where z: "z = (c, emb)" by (cases z)
  from Cons.prems z obtain md rest where
    md: "sanitize_metadata (json_dumps env) (py_str env) (chunk_metadata c) = Inr md" and
    rest: "build_vectors env zs = Inr rest" and
    vs: "vs = \<lparr> vec_id = chunk_id c, vec_values = emb, vec_metadata = md \<rparr> # rest"
    by (auto split: sum.splits)
  from Cons.prems(2) z have t: "tagged u c" and ts: "list_all (tagged u) (map fst zs)" by auto
  from t md have "map_of md ''user_id'' = Some (PStr u)"
    unfolding tagged_def by (auto intro: sanitize_keeps_user_id)
  with Cons.IH[OF rest ts] vs show ?case by (simp add: owned_def)
qed

lemma index_put_set: "set (index_put r xs) \<subseteq> insert r (set xs)"
  by (induction xs) auto

lemma index_upsert_set: "set (index_upsert vs idx) \<subseteq> set vs \<union> set idx"
  unfolding index_upsert_def
proof (induction vs arbitrary: idx)
  case Nil
  then show ?case by simp
next
  case (Cons v vs)
  from Cons.IH[of "index_put v idx"] index_put_set[of v idx] show ?case by auto
qed

lemma upsert_batch_owned:
  assumes "upsert_batch env b s = (res, s')" and "list_all (tagged u) b"
    and "r \<in> set (vs_index s')"
  shows "r \<in> set (vs_index s) \<or> owned u r"
proof (cases res)
  case (Some e)
  with assms(1) have "vs_index s' = vs_index s"
    unfolding upsert_batch_def by (auto simp: Let_def split: sum.splits option.splits)
  with assms(3) show ?thesis by simp
next
  case None
  with assms(1) obtain embs vs where
    b: "build_vectors env (zip b embs) = Inr vs" and
    i: "vs_index s' = index_upsert vs (vs_index s)"
    unfolding upsert_batch_def by (auto simp: Let_def split: sum.splits option.splits)
  from assms(2) have "list_all (tagged u) (map fst (zip b embs))"
    by (auto simp: list_all_iff dest: set_zip_leftD)
  from build_vectors_owned[OF b this] have "list_all (owned u) vs" .
  with assms(3) i index_upsert_set[of vs "vs_index s"] show ?thesis
    by (auto simp: list_all_iff)
qed

lemma upsert_loop_owned:
  "upsert_loop env chunks starts s = (res, s') \<Longrightarrow> list_all (tagged u) chunks \<Longrightarrow>
     r \<in> set (vs_index s') \<Longrightarrow> r \<in> set (vs_index s) \<or> owned u r"
proof (induction starts arbitrary: s)
  case Nil
  then show ?case by simp
next
  case (Cons i starts)
  obtain res1 s1 where b: "upsert_batch env (take batch_size (drop i chunks)) s = (res1, s1)"
    by (cases "upsert_batch env (take batch_size (drop i chunks)) s")
  from Cons.prems(2) have t: "list_all (tagged u) (take batch_size (drop i chunks))"
    by (auto simp: list_all_iff dest: in_set_takeD in_set_dropD)
  show ?case
  proof (cases res1)
    case (Some e)
    with b Cons.prems(1) have "s' = s1" by simp
    with upsert_batch_owned[OF b t] Cons.prems(3) show ?thesis by simp
  next
    case None
    with b Cons.prems(1) have "upsert_loop env chunks starts s1 = (res, s')" by simp
    from Cons.IH[OF this Cons.prems(2,3)] upsert_batch_owned[OF b t] show ?thesis by blast
  qed
qed

lemma ingestion_try_owned:
  assumes "distinct (map fst metadata)" and "map_of metadata ''user_id'' = Some (PStr u)"
    and "ingestion_try env file_path metadata s = (exit, s')"
    and "r \<in> set (vs_index s')"
  shows "r \<in> set (vs_index s) \<or> owned u r"
proof (cases "ingestion_ids env metadata")
  case (Inl e)
  with assms(3,4) show ?thesis by (simp add: ingestion_try_def)
next
  case ids: (Inr ids)
  show ?thesis
  proof (cases "process_file env file_path metadata")
    case (Inl e)
    with ids assms(3,4) show ?thesis by (simp add: ingestion_try_def)
  next
    case (Inr chunks)
    then obtain docs where "process_chunks env metadata 0 docs = Inr chunks"
      by (auto simp: process_file_def split: sum.splits)
    from process_chunks_metadata[OF assms(1,2) this] have t: "list_all (tagged u) chunks"
      by (simp add: list_all_iff tagged_def)
    show ?thesis
    proof (cases "chunks = []")
      case True
      with ids Inr assms(3,4) show ?thesis by (simp add: ingestion_try_def)
    next
      case False
      obtain res s1 where u: "upsert_chunks env chunks s = (res, s1)"
        by (cases "upsert_chunks env chunks s")
      with ids Inr False assms(3) have "s' = s1"
        by (auto simp: ingestion_try_def split: option.splits)
      moreover from u False
      have "upsert_loop env chunks (py_range 0 (length chunks) batch_size) s = (res, s1)"
        by (simp add: upsert_chunks_def)
      ultimately show ?thesis using upsert_loop_owned[OF _ t] assms(4) by blast
    qed
  qed
qed

lemma ingestion_body_store:
  "snd (ingestion_body env file_path metadata s) = snd (ingestion_try env file_path metadata s)"
  by (simp add: ingestion_body_def split: prod.splits exit_path.splits option.splits)

lemma ingestion_body_owned:
  assumes "distinct (map fst metadata)" and "map_of metadata ''user_id'' = Some (PStr u)"
    and "ingestion_body env file_path metadata s = (exit, s')"
    and "r \<in> set (vs_index s')"
  shows "r \<in> set (vs_index s) \<or> owned u r"
proof -
  from assms(3) ingestion_body_store[of env file_path metadata s]
  have "ingestion_try env file_path metadata s
      = (fst (ingestion_try env file_path metadata s), s')"
    by (simp add: prod_eq_iff)
  from ingestion_try_owned[OF assms(1,2) this assms(4)] show ?thesis .
qed

lemma cleanup_store: "w_store (cleanup env p w) = w_store w"
  by (simp add: cleanup_def split: option.splits)

lemma run_ingestion_pipeline_owned:
  assumes "distinct (map fst metadata)" and "map_of metadata ''user_id'' = Some (PStr u)"
    and "run_ingestion_pipeline env file_path metadata w = (exit, w')"
    and "r \<in> set (vs_index (w_store w'))"
  shows "r \<in> set (vs_index (w_store w)) \<or> owned u r"
proof -
  obtain ex s' where b: "ingestion_body env file_path metadata (w_store w) = (ex, s')"
    by (cases "ingestion_body env file_path metadata (w_store w)")
  with assms(3) have "w_store w' = s'"
    by (auto simp: run_ingestion_pipeline_def cleanup_store)
  with ingestion_body_owned[OF assms(1,2) b] assms(4) show ?thesis by simp
qed

text \<open>
  Claim C2, as the code has it. If the metadata dictionary handed to the ingestion maps
  \<open>user_id\<close> to a string \<open>u\<close>, then every record in the index after the ingestion,
  whether it ended normally or with an error, was there before or carries \<open>user_id\<close>
  equal to \<open>u\<close> in its sanitized metadata. Nothing checks that \<open>u\<close> is non-empty
  or that the key is there at all.
\<close>

theorem ingestion_persists_user_id:
  assumes "distinct (map fst metadata)" and "map_of metadata ''user_id'' = Some (PStr u)"
    and "run_ingestion_pipeline env file_path metadata w = (exit, w')"
  shows "list_all (\<lambda>r. r \<in> set (vs_index (w_store w)) \<or> owned u r) (vs_index (w_store w'))"
  unfolding list_all_iff using run_ingestion_pipeline_owned[OF assms] by blast

text \<open>
  The theorem at the test document, ingested for \<open>u1\<close> into an empty index: both
  chunks are stored with \<open>user_id\<close> equal to \<open>u1\<close>.
\<close>

theorem ingestion_persists_user_id_witness:
  "distinct (map fst (test_upload_metadata ''u1''))
     \<and> map_of (test_upload_metadata ''u1'') ''user_id'' = Some (PStr ''u1'')
     \<and> fst (run_ingestion_pipeline test_env test_path (test_upload_metadata ''u1'') test_world)
         = Ingested
     \<and> list_all (owned ''u1'')
          (vs_index (w_store (snd (run_ingestion_pipeline test_env test_path
               (test_upload_metadata ''u1'') test_world))))
     \<and> length (vs_index (w_store (snd (run_ingestion_pipeline test_env test_path
               (test_upload_metadata ''u1'') test_world)))) = 2"
proof -
  let ?md = "test_upload_metadata ''u1''"
  let ?run = "run_ingestion_pipeline test_env test_path ?md test_world"
  have h1: "distinct (map fst ?md)" by (simp add: test_upload_metadata_def)
  have h2: "map_of ?md ''user_id'' = Some (PStr ''u1'')"
    by (simp add: test_upload_metadata_def)
  have f: "fst ?run = Ingested" by code_simp
  then have h3: "?run = (Ingested, snd ?run)" by (simp add: prod_eq_iff)
  have e: "vs_index (w_store test_world) = []"
    by (simp add: test_world_def empty_store_def)
  from ingestion_persists_user_id[OF h1 h2 h3]
  have o: "list_all (owned ''u1'') (vs_index (w_store (snd ?run)))"
    unfolding e by simp
  have n: "length (vs_index (w_store (snd ?run))) = 2" by code_simp
  from h1 h2 f o n show ?thesis by simp
qed

text \<open>
  The claim as it is worded fails: ingested with an empty \<open>user_id\<close>, the test document
  is stored with the empty string as its \<open>user_id\<close>; ingested with metadata that has
  no \<open>user_id\<close>, it is stored with none.
\<close>

theorem ingestion_user_id_counterexample:
  "persisted_user_ids (snd (run_ingestion_pipeline test_env test_path
       (test_upload_metadata []) test_world))
     = [Some (PStr []), Some (PStr [])]
   \<and> persisted_user_ids (snd (run_ingestion_pipeline test_env test_path
       [(''file_id'', PStr ''f1'')] test_world))
     = [None, None]"
  by code_simp

section \<open>Properties of retrieval\<close>

lemma sublist_avoid_char:
  assumes "sublist t (a @ c # b)" and "c \<notin> set t"
  shows "sublist t a \<or> sublist t b"
proof -
  from assms(1) consider "sublist t a" | "sublist t (c # b)"
    | t1 t2 where "t = t1 @ t2" "suffix t1 a" "prefix t2 (c # b)"
    unfolding sublist_append by blast
  then show ?thesis
  proof cases
    case 1 then show ?thesis by simp
  next
    case 2
    then have "prefix t (c # b) \<or> sublist t b" by (simp add: sublist_Cons_right)
    then show ?thesis
    proof
      assume "prefix t (c # b)"
      with assms(2) have "t = []" by (cases t) auto
      then show ?thesis by simp
    qed simp
  next
    case 3
    from 3(3) assms(2) 3(1) have "t2 = []" by (cases t2) auto
    with 3(1,2) show ?thesis by auto
  qed
qed

lemma sublist_across_separator:
  assumes "sublist t (a @ context_separator @ b)"
    and "CHR 0x0A \<notin> set t" and "\<not> set t \<subseteq> {CHR ''-''}"
  shows "sublist t a \<or> sublist t b"
proof -
  have sep: "a @ context_separator @ b
      = a @ CHR 0x0A # ([] @ CHR 0x0A # (''---'' @ CHR 0x0A # ([] @ CHR 0x0A # b)))"
    by (simp add: context_separator_def nl_def)
  from assms(3) have ne: "t \<noteq> []" by auto
  from assms(1) have "sublist t a \<or> sublist t ([] @ CHR 0x0A # (''---'' @ CHR 0x0A # ([] @ CHR 0x0A # b)))"
    unfolding sep using assms(2) by (rule sublist_avoid_char)
  moreover
  { assume "sublist t ([] @ CHR 0x0A # (''---'' @ CHR 0x0A # ([] @ CHR 0x0A # b)))"
    then have "sublist t [] \<or> sublist t (''---'' @ CHR 0x0A # ([] @ CHR 0x0A # b))"
      using assms(2) by (rule sublist_avoid_char)
    with ne have "sublist t (''---'' @ CHR 0x0A # ([] @ CHR 0x0A # b))" by simp
    then have "sublist t ''---'' \<or> sublist t ([] @ CHR 0x0A # b)"
      using assms(2) by (rule sublist_avoid_char)
    moreover
    { assume "sublist t ''---''"
      then have "set t \<subseteq> set ''---''" by (rule set_mono_sublist)
      with assms(3) have False by simp }
    moreover
    { assume "sublist t ([] @ CHR 0x0A # b)"
      then have "sublist t [] \<or> sublist t b" using assms(2) by (rule sublist_avoid_char)
      with ne have "sublist t b" by simp }
    ultimately have "sublist t b" by blast }
  ultimately show ?thesis by blast
qed

lemma sublist_join_strings:
  assumes "CHR 0x0A \<notin> set t" and "\<not> set t \<subseteq> {CHR ''-''}"
  shows "sublist t (join_strings context_separator pieces) \<Longrightarrow> \<exists>p \<in> set pieces. sublist t p"
proof (induction pieces)
  case Nil
  with assms(2) show ?case by auto
next
  case (Cons s rest)
  show ?case
  proof (cases rest)
    case Nil
    with Cons.prems show ?thesis by simp
  next
    case (Cons v va)
    with Cons.prems
    have "sublist t (s @ context_separator @ join_strings context_separator rest)"
      by simp
    from sublist_across_separator[OF this assms] Cons.IH show ?thesis by auto
  qed
qed

lemma py_join_from_strings:
  "py_join_from i sep vs = Inr ctx \<Longrightarrow>
     ctx = join_strings sep (str_payloads vs) \<and> list_all is_str vs"
proof (induction i sep vs arbitrary: ctx rule: py_join_from.induct)
  case (1 i sep)
  then show ?case by simp
next
  case (2 i sep s)
  then show ?case by simp
next
  case (3 i sep s v va)
  from "3.prems" obtain t where t: "py_join_from (Suc i) sep (v # va) = Inr t"
    and c: "ctx = s @ sep @ t"
    by (auto split: sum.splits)
  from "3.IH"[OF t] c show ?case
    by (cases v) auto
qed auto

lemma py_join_strings:
  "py_join sep vs = Inr ctx \<Longrightarrow> ctx = join_strings sep (str_payloads vs) \<and> list_all is_str vs"
  unfolding py_join_def by (rule py_join_from_strings)

lemma pick_chunks_subset:
  "pick_chunks chunks results = Inr picked \<Longrightarrow> set picked \<subseteq> set chunks"
proof (induction results arbitrary: picked)
  case Nil
  then show ?case by simp
next
  case (Cons i rest)
  then show ?case by (auto split: if_splits sum.splits)
qed

lemma extract_texts_set:
  "set (extract_texts ms) \<subseteq> match_text ` set ms"
  by (induction ms) auto

lemma str_payloads_set:
  "s \<in> set (str_payloads vs) \<longleftrightarrow> PStr s \<in> set vs"
  by (induction vs rule: str_payloads.induct) auto

lemma index_query_subset:
  "index_query env idx v k [(''user_id'', PStr u)] = Inr ms \<Longrightarrow> set ms \<subseteq> set (tenant_records idx u)"
  by (auto simp: index_query_def tenant_records_def split: option.splits dest: in_set_takeD)

lemma index_query_tenant:
  "index_query env idx v k [(''user_id'', PStr u)]
     = (case query_error env v of
          Some e \<Rightarrow> Inl e
        | None \<Rightarrow> Inr (take k (rev (sort_key (\<lambda>r. score env v (vec_values r))
                                      (tenant_records idx u)))))"
  by (simp add: index_query_def tenant_records_def split: option.splits)

lemma get_context_pieces:
  assumes "get_context env cfg idx query u = Inr ctx"
  shows "\<exists>pieces. set pieces \<subseteq> set (tenant_texts idx u)
           \<and> ctx = join_strings context_separator pieces"
proof -
  from assms obtain emb ms where
    q: "index_query env idx emb (RETRIEVAL_LIMIT cfg) [(''user_id'', PStr u)] = Inr ms"
    and rest: "(if ms = [] then Inr []
          else let chunks = extract_texts ms
               in if chunks = [] then Inr []
                  else (case rerank env query chunks (RERANK_LIMIT cfg) (COHERE_RERANK_MODEL cfg) of
                          Inl e \<Rightarrow> Inl e
                        | Inr results \<Rightarrow>
                            (case pick_chunks chunks results of
                               Inl e \<Rightarrow> Inl e
                             | Inr final \<Rightarrow> py_join context_separator final))) = Inr ctx"
    unfolding get_context_def get_context_try_def
    by (auto split: sum.splits option.splits)
  show ?thesis
  proof (cases "ms = [] \<or> extract_texts ms = []")
    case True
    with rest have "ctx = []" by (auto simp: Let_def split: if_splits)
    then show ?thesis by (intro exI[of _ "[]"]) simp
  next
    case False
    with rest obtain results final where
      p: "pick_chunks (extract_texts ms) results = Inr final" and
      j: "py_join context_separator final = Inr ctx"
      by (auto simp: Let_def split: if_splits sum.splits)
    from py_join_strings[OF j] have c: "ctx = join_strings context_separator (str_payloads final)"
      by simp
    have "set (str_payloads final) \<subseteq> set (tenant_texts idx u)"
    proof
      fix s assume "s \<in> set (str_payloads final)"
      then have "PStr s \<in> set final" by (simp add: str_payloads_set)
      with pick_chunks_subset[OF p] extract_texts_set[of ms]
      obtain m where "m \<in> set ms" "match_text m = PStr s" by force
      with index_query_subset[OF q] show "s \<in> set (tenant_texts idx u)"
        unfolding tenant_texts_def str_payloads_set by force
    qed
    with c show ?thesis by blast
  qed
qed

lemma get_context_same_records:
  assumes "tenant_records idx' u = tenant_records idx u"
  shows "get_context env cfg idx' query u = get_context env cfg idx query u"
  unfolding get_context_def get_context_try_def index_query_tenant assms ..

lemma tenant_records_owned:
  "tenant_records idx u = filter (owned u) idx"
  by (simp add: tenant_records_def filter_match_def owned_def cong: filter_cong)

lemma tenant_records_without:
  "A \<noteq> B \<Longrightarrow> tenant_records (without_tenant A idx) B = tenant_records idx B"
  by (auto simp: tenant_records_owned without_tenant_def owned_def intro: filter_cong)

lemma get_context_token_in_record:
  assumes "get_context env cfg idx query B = Inr ctx" and "sublist tok ctx"
    and "CHR 0x0A \<notin> set tok" and "\<not> set tok \<subseteq> {CHR ''-''}"
  shows "\<exists>t \<in> set (tenant_texts idx B). sublist tok t"
proof -
  from get_context_pieces[OF assms(1)] obtain pieces where
    p: "set pieces \<subseteq> set (tenant_texts idx B)" "ctx = join_strings context_separator pieces"
    by blast
  from assms(2-4) p(2) have "\<exists>q \<in> set pieces. sublist tok q"
    by (auto intro: sublist_join_strings)
  with p(1) show ?thesis by blast
qed

text \<open>
  Claim C1. The result of \<open>get_context\<close> for tenant \<open>B\<close>, a context or an error, is
  the same on any two indexes that hold the same records of \<open>B\<close>, whatever the records
  of other tenants are (two-run noninterference); in particular, for a tenant \<open>A\<close>
  other than \<open>B\<close>, it is the same on the index with all records of \<open>A\<close> taken out,
  so nothing in the context of \<open>B\<close>, no token, tells whether chunks of \<open>A\<close> are
  stored. A context returned is the join, with the fixed separator, of texts of stored
  records whose \<open>user_id\<close> equals \<open>B\<close>.
\<close>

theorem get_context_isolation:
  "(\<forall>idx'. tenant_records idx' B = tenant_records idx B \<longrightarrow>
        get_context env cfg idx' query B = get_context env cfg idx query B)
   \<and> (A \<noteq> B \<longrightarrow>
        get_context env cfg (without_tenant A idx) query B = get_context env cfg idx query B)
   \<and> (\<forall>ctx. get_context env cfg idx query B = Inr ctx \<longrightarrow>
        (\<exists>pieces. set pieces \<subseteq> set (tenant_texts idx B)
                \<and> ctx = join_strings context_separator pieces))"
proof (intro conjI allI impI)
  fix idx' assume "tenant_records idx' B = tenant_records idx B"
  then show "get_context env cfg idx' query B = get_context env cfg idx query B"
    by (rule get_context_same_records)
next
  assume "A \<noteq> B"
  then have "tenant_records (without_tenant A idx) B = tenant_records idx B"
    by (rule tenant_records_without)
  then show "get_context env cfg (without_tenant A idx) query B = get_context env cfg idx query B"
    by (rule get_context_same_records)
next
  fix ctx assume "get_context env cfg idx query B = Inr ctx"
  then show "\<exists>pieces. set pieces \<subseteq> set (tenant_texts idx B)
                \<and> ctx = join_strings context_separator pieces"
    by (rule get_context_pieces)
qed

text \<open>
  The theorem at the test index, queried as \<open>B\<close>: with or without the record of \<open>A\<close>
  the context is the same, it is joined from the two texts of \<open>B\<close>, and the secret of
  \<open>A\<close> is not in it.
\<close>

theorem get_context_isolation_witness:
  "''A'' \<noteq> ''B''
     \<and> tenant_records (without_tenant ''A'' test_index) ''B'' = tenant_records test_index ''B''
     \<and> get_context test_env default_settings (without_tenant ''A'' test_index) ''q'' ''B''
         = get_context test_env default_settings test_index ''q'' ''B''
     \<and> get_context test_env default_settings test_index ''q'' ''B''
         = Inr (join_strings context_separator [''y'', ''x''])
     \<and> tenant_texts test_index ''B'' = [''x'', ''y'']
     \<and> \<not> sublist ''ORANGE-SUNSET'' (join_strings context_separator [''y'', ''x''])"
proof -
  note iso = get_context_isolation[of "''B''" test_index test_env default_settings "''q''" "''A''"]
  have h0: "''A'' \<noteq> ''B''" by simp
  have h1: "tenant_records (without_tenant ''A'' test_index) ''B''
      = tenant_records test_index ''B''"
    by code_simp
  have h2: "get_context test_env default_settings test_index ''q'' ''B''
      = Inr (join_strings context_separator [''y'', ''x''])"
    by code_simp
  from iso h0 have same:
    "get_context test_env default_settings (without_tenant ''A'' test_index) ''q'' ''B''
      = get_context test_env default_settings test_index ''q'' ''B''"
    by blast
  from iso h2 obtain pieces where
    "set pieces \<subseteq> set (tenant_texts test_index ''B'')"
    "join_strings context_separator [''y'', ''x''] = join_strings context_separator pieces"
    by blast
  have texts: "tenant_texts test_index ''B'' = [''x'', ''y'']"
    by code_simp
  have no: "\<not> sublist ''ORANGE-SUNSET'' (join_strings context_separator [''y'', ''x''])"
    by code_simp
  from h0 h1 same h2 texts no show ?thesis by simp
qed

section \<open>Properties of answer generation and of the query endpoint\<close>

lemma log_error_kw_no_brace:
  "CHR 0x7B \<notin> set message \<Longrightarrow> CHR 0x7D \<notin> set message \<Longrightarrow> log_error_kw env message = None"
proof -
  have "CHR 0x7D \<notin> set m \<Longrightarrow> \<not> lone_close_first m" for m
    by (induction m rule: lone_close_first.induct) auto
  then show "CHR 0x7B \<notin> set message \<Longrightarrow> CHR 0x7D \<notin> set message \<Longrightarrow> ?thesis"
    by (simp add: log_error_kw_def)
qed

lemma handle_api_error_answer:
  "handle_api_error env cfg sc t
     = Inr (if sc = Some 404 then model_not_found cfg else generic_llm_error)"
  by (simp add: handle_api_error_def split: option.splits)

text \<open>
  What \<open>generate_answer\<close> does where its logging does not raise: an API error is
  answered from its status code alone, whatever stringifying it would do; a
  \<open>KeyError\<close>, \<open>AttributeError\<close> or \<open>TypeError\<close> gets the generic answer; any other
  exception gets the generic prefix and the first 100 characters of its text.
\<close>

lemma generate_answer_answers:
  "(llm_create env (messages_request cfg sp query context) = RaisedAPIError sc t \<longrightarrow>
        generate_answer env cfg sp query context
          = Inr (if sc = Some 404 then model_not_found cfg else generic_llm_error))
   \<and> ((llm_create env (messages_request cfg sp query context) = Raised e
         \<or> (llm_create env (messages_request cfg sp query context) = Response content
             \<and> first_text content = Inl e))
        \<and> is_parse_error e
        \<and> log_error_kw env (''Error parsing API response or error object: ''
                               @ exn_name e @ '': '' @ exn_str e) = None \<longrightarrow>
        generate_answer env cfg sp query context = Inr generic_llm_error)
   \<and> ((llm_create env (messages_request cfg sp query context) = Raised e
         \<or> (llm_create env (messages_request cfg sp query context) = Response content
             \<and> first_text content = Inl e))
        \<and> \<not> is_parse_error e
        \<and> log_error_kw env (''Unexpected error in LLM service: ''
                               @ exn_name e @ '': '' @ exn_str e) = None \<longrightarrow>
        generate_answer env cfg sp query context
          = Inr (''SERVICE_ERROR: Unable to generate a response. Error: '' @ take 100 (exn_str e)))"
  by (auto simp: generate_answer_def handle_exception_def handle_api_error_answer)

text \<open>
  Three providers for which \<open>generate_answer\<close> does return: an API error with status
  404 whose stringification would raise, one with status 500, and a response whose
  first block has no text.
\<close>

lemma generate_answer_examples:
  "api_error_str None = Inl (KeyError (sq @ ''type'' @ sq))
     \<and> generate_answer (api_error_env (Some 404)) default_settings ''sys'' ''q'' ''ctx''
         = Inr (model_not_found default_settings)
     \<and> generate_answer (api_error_env (Some 500)) default_settings ''sys'' ''q'' ''ctx''
         = Inr generic_llm_error
     \<and> generate_answer malformed_env default_settings ''sys'' ''q'' ''ctx''
         = Inr generic_llm_error"
  by code_simp

text \<open>
  Claim C3 does not hold of the code. The second and third \<open>except\<close> clauses log
  with \<open>exc_info=True\<close> outside any \<open>try\<close>, unlike the first. When the provider call
  raises \<open>RuntimeError('a } b')\<close>, the logger formats a message that holds this text,
  the lone closing brace makes \<open>str.format\<close> raise \<open>ValueError\<close>, and that exception
  leaves \<open>generate_answer\<close>, where the claim has it return the generic message.
\<close>

theorem generate_answer_raises_on_brace:
  "generate_answer (raising_env (OtherError ''RuntimeError'' ''a } b''))
       default_settings ''sys'' ''q'' ''ctx''
     = Inl single_close_error"
  by code_simp

text \<open>
  Claim C4, as the code has it. When the retrieval pipeline raises \<open>e\<close> and the
  logging call of the \<open>except\<close> clause goes through, \<open>query_rag\<close> returns a response with
  status \<open>error\<close> whose answer comes from \<open>str(e)\<close> truncated to 200 characters and
  then stripped of leading and trailing whitespace: if that text is empty, or is shorter
  than 50 characters and starts and ends with the same quote character, the answer is
  the generic try-again message; otherwise it is the generic label followed by that
  stripped text. The logging call goes through on every message without a brace.
\<close>

theorem query_rag_error_answer:
  "(get_context env cfg idx (req_query request) (req_user_id request) = Inl e
      \<and> log_error_kw env (''Chat request failed: '' @ exn_name e @ '': '' @ exn_str e) = None \<longrightarrow>
        query_rag env cfg sp idx request
          = Inr \<lparr> answer =
                    (if py_strip (take 200 (exn_str e)) = []
                        \<or> (length (py_strip (take 200 (exn_str e))) < 50
                            \<and> quoted (py_strip (take 200 (exn_str e))))
                     then try_again
                     else ''Error processing your query: '' @ py_strip (take 200 (exn_str e))),
                  status = ''error'' \<rparr>)
   \<and> (CHR 0x7B \<notin> set (exn_name e @ exn_str e) \<and> CHR 0x7D \<notin> set (exn_name e @ exn_str e) \<longrightarrow>
        log_error_kw env (''Chat request failed: '' @ exn_name e @ '': '' @ exn_str e) = None)"
proof (intro conjI impI)
  assume "CHR 0x7B \<notin> set (exn_name e @ exn_str e) \<and> CHR 0x7D \<notin> set (exn_name e @ exn_str e)"
  then show "log_error_kw env (''Chat request failed: '' @ exn_name e @ '': '' @ exn_str e) = None"
    by (intro log_error_kw_no_brace) auto
qed (auto simp: query_rag_def chat_except_def error_response_def ChatResponse_new_def
       error_answer_def Let_def)

text \<open>
  The theorem at a pipeline that raises \<open>KeyError('type')\<close>, whose text is the quoted
  key: the logging call goes through and the answer is the try-again message.
\<close>

theorem query_rag_error_answer_witness:
  "get_context (broken_env (KeyError (sq @ ''type'' @ sq))) default_settings []
       (req_query (ChatRequest_new ''q'' None)) (req_user_id (ChatRequest_new ''q'' None))
     = Inl (KeyError (sq @ ''type'' @ sq))
   \<and> CHR 0x7B \<notin> set (exn_name (KeyError (sq @ ''type'' @ sq)) @ exn_str (KeyError (sq @ ''type'' @ sq)))
   \<and> CHR 0x7D \<notin> set (exn_name (KeyError (sq @ ''type'' @ sq)) @ exn_str (KeyError (sq @ ''type'' @ sq)))
   \<and> query_rag (broken_env (KeyError (sq @ ''type'' @ sq))) default_settings ''sys'' []
       (ChatRequest_new ''q'' None)
     = Inr \<lparr> answer = try_again, status = ''error'' \<rparr>"
proof -
  let ?e = "KeyError (sq @ ''type'' @ sq)"
  let ?env = "broken_env ?e"
  note inst = query_rag_error_answer[of ?env default_settings "[]" "ChatRequest_new ''q'' None"
      ?e "''sys''"]
  have h: "get_context ?env default_settings []
       (req_query (ChatRequest_new ''q'' None)) (req_user_id (ChatRequest_new ''q'' None))
     = Inl ?e"
    by code_simp
  have b: "CHR 0x7B \<notin> set (exn_name ?e @ exn_str ?e) \<and> CHR 0x7D \<notin> set (exn_name ?e @ exn_str ?e)"
    by (simp add: sq_def)
  with inst have l: "log_error_kw ?env (''Chat request failed: '' @ exn_name ?e @ '': '' @ exn_str ?e)
      = None"
    by blast
  have q: "py_strip (take 200 (exn_str ?e)) = sq @ ''type'' @ sq"
    by code_simp
  have "quoted (sq @ ''type'' @ sq)"
    by code_simp
  with q have c: "py_strip (take 200 (exn_str ?e)) = []
      \<or> (length (py_strip (take 200 (exn_str ?e))) < 50
          \<and> quoted (py_strip (take 200 (exn_str ?e))))"
    by (simp add: sq_def)
  from inst h l
  have "query_rag ?env default_settings ''sys'' [] (ChatRequest_new ''q'' None)
      = Inr \<lparr> answer =
                    (if py_strip (take 200 (exn_str ?e)) = []
                        \<or> (length (py_strip (take 200 (exn_str ?e))) < 50
                            \<and> quoted (py_strip (take 200 (exn_str ?e))))
                     then try_again
                     else ''Error processing your query: '' @ py_strip (take 200 (exn_str ?e))),
                  status = ''error'' \<rparr>"
    by blast
  with c h b show ?thesis by (simp only: if_True simp_thms)
qed

text \<open>
  The claim as it is worded fails in two ways. With the truncated text used as it is,
  it fails where the text has whitespace at an end: a message that ends in a line break
  is answered without the line break, and a message of a single space is answered with
  the try-again message, where the wording asks for the label followed by the space.
  And the endpoint does raise: for \<open>RuntimeError('a } b')\<close> the unguarded logging call
  of the \<open>except\<close> clause raises \<open>ValueError\<close>, which leaves \<open>query_rag\<close>.
\<close>

theorem query_rag_counterexample:
  "query_rag (broken_env (OtherError ''ApiException'' (''connection reset'' @ nl)))
       default_settings ''sys'' [] (ChatRequest_new ''q'' None)
     = Inr \<lparr> answer = ''Error processing your query: connection reset'', status = ''error'' \<rparr>
   \<and> spec_error_answer (''connection reset'' @ nl)
     = ''Error processing your query: connection reset'' @ nl
   \<and> query_rag (broken_env (OtherError ''ApiException'' '' ''))
       default_settings ''sys'' [] (ChatRequest_new ''q'' None)
     = Inr \<lparr> answer = try_again, status = ''error'' \<rparr>
   \<and> spec_error_answer '' '' = ''Error processing your query:  ''
   \<and> query_rag (broken_env (OtherError ''RuntimeError'' ''a } b''))
       default_settings ''sys'' [] (ChatRequest_new ''q'' None)
     = Inl single_close_error"
  by code_simp

section \<open>Properties of the ingestion pipeline and of the process\<close>

lemma run_ingestion_pipeline_result:
  "run_ingestion_pipeline env file_path metadata w =
     (fst (ingestion_body env file_path metadata (w_store w)),
      cleanup env file_path
        (w\<lparr> w_store := snd (ingestion_body env file_path metadata (w_store w)) \<rparr>))"
  by (simp add: run_ingestion_pipeline_def split: prod.splits)

lemma ingestion_body_exit:
  "fst (ingestion_body env file_path metadata s) =
     (case fst (ingestion_try env file_path metadata s) of
        Failed e \<Rightarrow>
          (case ingestion_failure_log env metadata e of Some x \<Rightarrow> Failed x | None \<Rightarrow> Failed e)
      | Ingested \<Rightarrow> Ingested
      | NoChunks \<Rightarrow> NoChunks)"
  by (simp add: ingestion_body_def split: prod.splits exit_path.splits option.splits)

text \<open>
  Claim C8, as the code has it. If the \<open>try\<close> block ends with an ingestion or with
  the early return on zero chunks, so does the call; if it raises \<open>e\<close>, an exception
  leaves the call, and it is \<open>e\<close> whenever the logging call of the \<open>except\<close> clause
  does not raise. On each of these exits the \<open>finally\<close> block has run once before:
  if the file exists, \<open>os.remove\<close> is called exactly once, and the file is gone if
  that call succeeds and still there if it fails (the failure is logged, not raised);
  if the file does not exist, \<open>os.remove\<close> is not called.
\<close>

theorem run_ingestion_pipeline_cleanup:
  assumes "run_ingestion_pipeline env file_path metadata w = (exit, w')"
  shows "(fst (ingestion_try env file_path metadata (w_store w)) = Ingested \<longrightarrow> exit = Ingested)
       \<and> (fst (ingestion_try env file_path metadata (w_store w)) = NoChunks \<longrightarrow> exit = NoChunks)
       \<and> (\<forall>e. fst (ingestion_try env file_path metadata (w_store w)) = Failed e \<longrightarrow>
              (\<exists>x. exit = Failed x)
              \<and> (ingestion_failure_log env metadata e = None \<longrightarrow> exit = Failed e))
       \<and> (file_path \<in> w_files w \<and> remove_error env file_path = None \<longrightarrow>
            w_removes w' = w_removes w @ [(file_path, True)]
            \<and> w_files w' = w_files w - {file_path}
            \<and> removals file_path w' = Suc (removals file_path w))
       \<and> (file_path \<in> w_files w \<and> remove_error env file_path \<noteq> None \<longrightarrow>
            w_removes w' = w_removes w @ [(file_path, False)]
            \<and> w_files w' = w_files w
            \<and> removals file_path w' = removals file_path w)
       \<and> (file_path \<notin> w_files w \<longrightarrow> w_removes w' = w_removes w \<and> w_files w' = w_files w)"
proof -
  from assms have e: "exit = fst (ingestion_body env file_path metadata (w_store w))"
    and w': "w' = cleanup env file_path
        (w\<lparr> w_store := snd (ingestion_body env file_path metadata (w_store w)) \<rparr>)"
    unfolding run_ingestion_pipeline_result by simp_all
  have exits: "(fst (ingestion_try env file_path metadata (w_store w)) = Ingested \<longrightarrow> exit = Ingested)
       \<and> (fst (ingestion_try env file_path metadata (w_store w)) = NoChunks \<longrightarrow> exit = NoChunks)
       \<and> (\<forall>e. fst (ingestion_try env file_path metadata (w_store w)) = Failed e \<longrightarrow>
              (\<exists>x. exit = Failed x)
              \<and> (ingestion_failure_log env metadata e = None \<longrightarrow> exit = Failed e))"
    unfolding e ingestion_body_exit by (auto split: option.splits)
  have files: "(file_path \<in> w_files w \<and> remove_error env file_path = None \<longrightarrow>
            w_removes w' = w_removes w @ [(file_path, True)]
            \<and> w_files w' = w_files w - {file_path}
            \<and> removals file_path w' = Suc (removals file_path w))
       \<and> (file_path \<in> w_files w \<and> remove_error env file_path \<noteq> None \<longrightarrow>
            w_removes w' = w_removes w @ [(file_path, False)]
            \<and> w_files w' = w_files w
            \<and> removals file_path w' = removals file_path w)
       \<and> (file_path \<notin> w_files w \<longrightarrow> w_removes w' = w_removes w \<and> w_files w' = w_files w)"
    unfolding w' by (auto simp: cleanup_def removals_def split: option.splits)
  from exits files show ?thesis by blast
qed

text \<open>
  The theorem on the three exits, with the file on disk and a removal that succeeds:
  after an ingestion, after a document without text and after a parser failure, which
  leaves as it was raised, the file has been removed once.
\<close>

theorem run_ingestion_pipeline_cleanup_witness:
  "test_path \<in> w_files test_world
     \<and> remove_error test_env test_path = None
     \<and> fst (ingestion_try test_env test_path (test_upload_metadata ''u1'') (w_store test_world))
         = Ingested
     \<and> fst (run_ingestion_pipeline test_env test_path (test_upload_metadata ''u1'') test_world)
         = Ingested
     \<and> removals test_path (snd (run_ingestion_pipeline test_env test_path
           (test_upload_metadata ''u1'') test_world)) = 1
     \<and> fst (ingestion_try empty_doc_env test_path (test_upload_metadata ''u1'') (w_store test_world))
         = NoChunks
     \<and> fst (run_ingestion_pipeline empty_doc_env test_path (test_upload_metadata ''u1'') test_world)
         = NoChunks
     \<and> removals test_path (snd (run_ingestion_pipeline empty_doc_env test_path
           (test_upload_metadata ''u1'') test_world)) = 1
     \<and> fst (ingestion_try unparseable_env test_path (test_upload_metadata ''u1'')
              (w_store test_world))
         = Failed (OtherError ''ValueError'' ''invalid file'')
     \<and> ingestion_failure_log unparseable_env (test_upload_metadata ''u1'')
           (OtherError ''ValueError'' ''invalid file'') = None
     \<and> fst (run_ingestion_pipeline unparseable_env test_path (test_upload_metadata ''u1'') test_world)
         = Failed (OtherError ''ValueError'' ''invalid file'')
     \<and> removals test_path (snd (run_ingestion_pipeline unparseable_env test_path
           (test_upload_metadata ''u1'') test_world)) = 1
     \<and> w_files (snd (run_ingestion_pipeline unparseable_env test_path
           (test_upload_metadata ''u1'') test_world)) = {}"
proof -
  let ?md = "test_upload_metadata ''u1''"
  let ?e = "OtherError ''ValueError'' ''invalid file''"
  have f: "test_path \<in> w_files test_world" "w_files test_world - {test_path} = {}"
    "removals test_path test_world = 0"
    by (simp_all add: test_world_def removals_def)
  have r: "remove_error test_env test_path = None"
    "remove_error empty_doc_env test_path = None"
    "remove_error unparseable_env test_path = None"
    by (simp_all add: test_env_def empty_doc_env_def unparseable_env_def)
  have t1: "fst (ingestion_try test_env test_path ?md (w_store test_world)) = Ingested"
    by code_simp
  have t2: "fst (ingestion_try empty_doc_env test_path ?md (w_store test_world)) = NoChunks"
    by code_simp
  have t3: "fst (ingestion_try unparseable_env test_path ?md (w_store test_world)) = Failed ?e"
    by code_simp
  have l3: "ingestion_failure_log unparseable_env ?md ?e = None"
    by code_simp
  note c1 = run_ingestion_pipeline_cleanup[OF prod.collapse[symmetric],
        of test_env test_path ?md test_world]
  note c2 = run_ingestion_pipeline_cleanup[OF prod.collapse[symmetric],
        of empty_doc_env test_path ?md test_world]
  note c3 = run_ingestion_pipeline_cleanup[OF prod.collapse[symmetric],
        of unparseable_env test_path ?md test_world]
  from c1 t1 f r
  have e1: "fst (run_ingestion_pipeline test_env test_path ?md test_world) = Ingested"
    and n1: "removals test_path (snd (run_ingestion_pipeline test_env test_path ?md test_world)) = 1"
    by simp_all
  from c2 t2 f r
  have e2: "fst (run_ingestion_pipeline empty_doc_env test_path ?md test_world) = NoChunks"
    and n2: "removals test_path
        (snd (run_ingestion_pipeline empty_doc_env test_path ?md test_world)) = 1"
    by simp_all
  from c3 t3 l3 f r
  have e3: "fst (run_ingestion_pipeline unparseable_env test_path ?md test_world) = Failed ?e"
    and n3: "removals test_path
        (snd (run_ingestion_pipeline unparseable_env test_path ?md test_world)) = 1"
    and g3: "w_files (snd (run_ingestion_pipeline unparseable_env test_path ?md test_world)) = {}"
    by simp_all
  from f(1) r(1) t1 e1 n1 t2 e2 n2 t3 l3 e3 n3 g3 show ?thesis by simp
qed

text \<open>
  The claim as it is worded fails where the removal fails: the ingestion ends normally,
  \<open>os.remove\<close> was called once and raised, and the file was removed zero times and is
  still on disk. It fails where the file is not there: nothing is removed. And the
  exception raised again need not be the one caught: for a parser error whose text holds
  a closing brace, the logging call of the \<open>except\<close> clause raises and its
  \<open>ValueError\<close> leaves instead, after the cleanup.
\<close>

theorem run_ingestion_pipeline_cleanup_counterexample:
  "fst (run_ingestion_pipeline locked_env test_path (test_upload_metadata ''u1'') test_world)
     = Ingested
   \<and> w_removes (snd (run_ingestion_pipeline locked_env test_path
         (test_upload_metadata ''u1'') test_world)) = [(test_path, False)]
   \<and> removals test_path (snd (run_ingestion_pipeline locked_env test_path
         (test_upload_metadata ''u1'') test_world)) = 0
   \<and> test_path \<in> w_files (snd (run_ingestion_pipeline locked_env test_path
         (test_upload_metadata ''u1'') test_world))
   \<and> removals test_path (snd (run_ingestion_pipeline test_env test_path
         (test_upload_metadata ''u1'') blank_world)) = 0
   \<and> fst (ingestion_try brace_doc_env test_path (test_upload_metadata ''u1'')
            (w_store test_world))
     = Failed (OtherError ''ValueError'' ''invalid } file'')
   \<and> fst (run_ingestion_pipeline brace_doc_env test_path (test_upload_metadata ''u1'') test_world)
     = Failed single_close_error
   \<and> removals test_path (snd (run_ingestion_pipeline brace_doc_env test_path
         (test_upload_metadata ''u1'') test_world)) = 1"
  by code_simp

lemma get_embedding_model_memoized:
  "fst (get_embedding_model (snd (get_embedding_model p))) = fst (get_embedding_model p)
   \<and> model_loads (snd (get_embedding_model (snd (get_embedding_model p))))
       = model_loads (snd (get_embedding_model p))"
  by (simp add: get_embedding_model_def SentenceTransformer_def split: option.splits)

text \<open>
  Claim C9 does not hold of the code. Importing the application constructs the model
  twice, once in \<open>SearchService.__init__\<close> and once in \<open>VectorService.__init__\<close>,
  before any embedding is needed; the two services hold different instances, and the
  lazy singleton of \<open>embeddings.py\<close> is never initialized.
\<close>

theorem import_app_loads_two_models:
  "import_app fresh_process = (0, 1, \<lparr> model_loads = 2, shared_model = None \<rparr>)"
  by (simp add: import_app_def SearchService_init_def VectorService_init_def
        SentenceTransformer_def fresh_process_def numeral_2_eq_2)

section \<open>The default tenant\<close>

lemma upload_document_task:
  assumes "upload_document env cfg temp_dir fid up w0 = (Inr task, w1)"
  shows "task_metadata task =
           [(''file_id'', PStr fid), (''filename'', PStr (up_filename up)),
            (''user_id'', PStr (form_user_id (up_user_id up))),
            (''extension'', PStr (up_extension up))]
       \<and> w_store w1 = w_store w0"
  using assms unfolding upload_document_def
  by (auto simp: Let_def split: if_splits save_outcome.splits)

lemma test_upload_result:
  "upload_document test_env default_settings ''data/temp'' ''f1'' test_upload blank_world
     = (Inr \<lparr> task_file_path = test_path,
               task_metadata = test_upload_metadata ''default_user'' \<rparr>,
        test_world)"
  by (simp add: upload_document_def default_settings_def test_upload_def
        test_upload_metadata_def form_user_id_def blank_world_def test_world_def
        test_path_def Let_def)

lemma shared_index_eq:
  "shared_index = vs_index (w_store (snd (run_ingestion_pipeline test_env test_path
       (test_upload_metadata ''default_user'') test_world)))"
  by (simp add: shared_index_def test_upload_result)

lemma owned_filter_match: "owned u r = filter_match [(''user_id'', PStr u)] r"
  by (simp add: owned_def filter_match_def)

text \<open>
  Claim C10. A query request without \<open>user_id\<close> and an upload without \<open>user_id\<close>
  both get the tenant \<open>default_user\<close>. So when an upload without \<open>user_id\<close> is
  accepted and its background ingestion runs, every record it adds to the index passes
  the filter that a query without \<open>user_id\<close> uses; and in the test scenario, where
  one caller uploads the test file without \<open>user_id\<close>, the context retrieved for
  another caller who omits \<open>user_id\<close> holds the texts of that file.
\<close>

theorem default_user_shared_partition:
  "req_user_id (ChatRequest_new q None) = ''default_user''
   \<and> form_user_id None = ''default_user''
   \<and> (up_user_id up = None
        \<and> upload_document env cfg temp_dir fid up w0 = (Inr task, w1)
        \<and> run_ingestion_pipeline env (task_file_path task) (task_metadata task) w1 = (exit, w2)
        \<longrightarrow> list_all (\<lambda>r. r \<in> set (vs_index (w_store w0))
                            \<or> filter_match [(''user_id'', PStr (req_user_id (ChatRequest_new q None)))] r)
              (vs_index (w_store w2)))
   \<and> get_context test_env default_settings shared_index
        (req_query (ChatRequest_new ''q'' None)) (req_user_id (ChatRequest_new ''q'' None))
      = Inr (''beta'' @ context_separator @ ''alpha'')"
proof (intro conjI impI)
  show "req_user_id (ChatRequest_new q None) = ''default_user''"
    by (simp add: ChatRequest_new_def)
  show "form_user_id None = ''default_user''"
    by (simp add: form_user_id_def)
  show "get_context test_env default_settings shared_index
        (req_query (ChatRequest_new ''q'' None)) (req_user_id (ChatRequest_new ''q'' None))
      = Inr (''beta'' @ context_separator @ ''alpha'')"
    unfolding shared_index_eq by code_simp
next
  assume a: "up_user_id up = None
        \<and> upload_document env cfg temp_dir fid up w0 = (Inr task, w1)
        \<and> run_ingestion_pipeline env (task_file_path task) (task_metadata task) w1 = (exit, w2)"
  from a upload_document_task[of env cfg temp_dir fid up w0 task w1]
  have md: "task_metadata task =
           [(''file_id'', PStr fid), (''filename'', PStr (up_filename up)),
            (''user_id'', PStr ''default_user''), (''extension'', PStr (up_extension up))]"
    and st: "w_store w1 = w_store w0"
    by (simp_all add: form_user_id_def)
  from md have d: "distinct (map fst (task_metadata task))"
    and u: "map_of (task_metadata task) ''user_id'' = Some (PStr ''default_user'')"
    by simp_all
  from a have run: "run_ingestion_pipeline env (task_file_path task) (task_metadata task) w1
      = (exit, w2)" by simp
  have "\<forall>r \<in> set (vs_index (w_store w2)).
      r \<in> set (vs_index (w_store w0)) \<or> owned ''default_user'' r"
    using run_ingestion_pipeline_owned[OF d u run] st by auto
  then show "list_all (\<lambda>r. r \<in> set (vs_index (w_store w0))
                            \<or> filter_match [(''user_id'', PStr (req_user_id (ChatRequest_new q None)))] r)
              (vs_index (w_store w2))"
    by (simp add: list_all_iff owned_filter_match ChatRequest_new_def)
qed

text \<open>
  The theorem at the test scenario: the upload without \<open>user_id\<close> is accepted, the
  ingestion stores two records, and both pass the filter of a query without
  \<open>user_id\<close>.
\<close>

theorem default_user_shared_partition_witness:
  "up_user_id test_upload = None
     \<and> upload_document test_env default_settings ''data/temp'' ''f1'' test_upload blank_world
         = (Inr \<lparr> task_file_path = test_path,
                   task_metadata = test_upload_metadata ''default_user'' \<rparr>,
            test_world)
     \<and> fst (run_ingestion_pipeline test_env test_path
               (test_upload_metadata ''default_user'') test_world)
         = Ingested
     \<and> length shared_index = 2
     \<and> list_all (filter_match [(''user_id'', PStr ''default_user'')]) shared_index"
proof -
  let ?task = "\<lparr> task_file_path = test_path,
                 task_metadata = test_upload_metadata ''default_user'' \<rparr>"
  let ?run = "run_ingestion_pipeline test_env test_path
               (test_upload_metadata ''default_user'') test_world"
  have h1: "up_user_id test_upload = None"
    by (simp add: test_upload_def)
  note h2 = test_upload_result
  have f3: "fst ?run = Ingested"
    by code_simp
  then have h3: "run_ingestion_pipeline test_env (task_file_path ?task) (task_metadata ?task)
      test_world = (Ingested, snd ?run)"
    by (simp add: prod_eq_iff)
  have e: "vs_index (w_store blank_world) = []"
    by (simp add: blank_world_def empty_store_def)
  from default_user_shared_partition[of "''q''" test_upload test_env default_settings
      "''data/temp''" "''f1''" blank_world ?task test_world Ingested "snd ?run"] h1 h2 h3
  have "list_all (\<lambda>r. r \<in> set (vs_index (w_store blank_world))
                       \<or> filter_match [(''user_id'', PStr (req_user_id (ChatRequest_new ''q'' None)))] r)
          (vs_index (w_store (snd ?run)))"
    by blast
  then have m: "list_all (filter_match [(''user_id'', PStr ''default_user'')]) shared_index"
    unfolding e shared_index_eq by (simp add: ChatRequest_new_def)
  have n: "length shared_index = 2"
    unfolding shared_index_eq by code_simp
  from h1 h2 f3 n m show ?thesis by simp
qed

end
